theory Spec2Isabelle
  imports Main
begin

section \<open>Values, documents and filters of the document store\<close>

text \<open>
  The services keep their records in MongoDB collections, reached through pymongo.
  An \<open>ObjectId()\<close> and a \<open>datetime\<close> are opaque values to the code: they are
  compared for equality and (for timestamps) for order only, so they are numbers here.
  A fresh \<open>ObjectId()\<close> and \<open>datetime.utcnow()\<close> are read from the environment; the
  functions below take them as arguments.
\<close>

type_synonym ObjectId = nat
type_synonym datetime = int
type_synonym UUID = string

datatype bson =
    BNull
  | BOid ObjectId
  | BStr string
  | BTime datetime
  | BDoc "string \<Rightarrow> bson option"
  | BList "bson list"

text \<open>A stored document is a Python dict: a key is either missing or bound to a value
  (\<open>BNull\<close> for Python's \<open>None\<close>).\<close>

type_synonym document = "string \<Rightarrow> bson option"

text \<open>A search filter \<open>{'k': v}\<close> or \<open>{'k': {'$op': v}}\<close>.\<close>

datatype cond = Eq bson | Op string bson

type_synonym spec = "(string \<times> cond) list"

text \<open>Range operators compare values of the same type only (MongoDB's type bracketing).\<close>

fun bson_less :: "bson \<Rightarrow> bson \<Rightarrow> bool" where
  "bson_less (BTime a) (BTime b) = (a < b)"
| "bson_less (BOid a) (BOid b) = (a < b)"
| "bson_less _ _ = False"

fun cond_holds :: "cond \<Rightarrow> bson option \<Rightarrow> bool" where
  "cond_holds (Eq v) None = (v = BNull)"
| "cond_holds (Eq v) (Some x) = (x = v)"
| "cond_holds (Op opr v) None = False"
| "cond_holds (Op opr v) (Some x) =
     (if opr = ''$gt'' then bson_less v x
      else if opr = ''$gte'' then bson_less v x \<or> x = v
      else False)"

definition matches :: "spec \<Rightarrow> document \<Rightarrow> bool" where
  "matches sp d = list_all (\<lambda>(k, c). cond_holds c (d k)) sp"

section \<open>The collection and the trace of store calls\<close>

text \<open>
  A unique index as \<open>setup_indexes\<close> declares it:
  \<open>'unique-external-id': {'key': [('external_id', 1)], 'unique': True, 'sparse': True}\<close>.
\<close>

record index =
  idx_name :: string
  idx_key :: string
  idx_unique :: bool
  idx_sparse :: bool

text \<open>
  The trace records, in order, every call that reaches a store: a call that changes
  nothing in the document store (\<open>DocAccess\<close>), a committed write of the document with
  the given \<open>_id\<close> (\<open>DocWrite\<close>), and a write of the graph-store group with the given
  identifier (\<open>GraphWrite\<close>). It is bookkeeping for the statements below and is never
  read by the modelled code.
\<close>

datatype event = DocAccess | DocWrite ObjectId | GraphWrite string

text \<open>\<open>ScimApiBaseDB\<close>: the collection \<open>_coll\<close> with its indexes and write concern.\<close>

record ScimApiBaseDB =
  docs :: "document list"
  indexes :: "index list"
  acknowledged :: bool
  trace :: "event list"

datatype error =
    RuntimeError string
  | ValueError string
  | DuplicateKeyError string
  | InvalidOperation
  | DocumentDoesNotExist
  | AttributeError
  | KeyError string
  | TypeError
  | BadRequest string

subsection \<open>Unique indexes\<close>

text \<open>
  MongoDB keeps an index entry for every document that has the indexed field, also when
  the field holds null. A document without the field is entered as null, unless the index
  is sparse: a sparse index skips the documents that lack the field.
\<close>

definition index_entry :: "index \<Rightarrow> document \<Rightarrow> bson option" where
  "index_entry ix d =
     (case d (idx_key ix) of
        None \<Rightarrow> if idx_sparse ix then None else Some BNull
      | Some v \<Rightarrow> Some v)"

definition collides :: "index \<Rightarrow> document \<Rightarrow> document list \<Rightarrow> bool" where
  "collides ix d others =
     (idx_unique ix \<and> index_entry ix d \<noteq> None \<and>
      list_ex (\<lambda>d'. index_entry ix d' = index_entry ix d) others)"

definition duplicate_key :: "string \<Rightarrow> error" where
  "duplicate_key name = DuplicateKeyError (''E11000 duplicate key error index: '' @ name)"

text \<open>The primary key \<open>_id\<close> is always unique; the declared indexes are checked in order.\<close>

definition violated :: "index list \<Rightarrow> document \<Rightarrow> document list \<Rightarrow> error option" where
  "violated ixs d others =
     (if list_ex (\<lambda>d'. d' ''_id'' = d ''_id'') others then Some (duplicate_key ''_id_'')
      else map_option (\<lambda>ix. duplicate_key (idx_name ix))
             (find (\<lambda>ix. collides ix d others) ixs))"

subsection \<open>pymongo's collection calls\<close>

text \<open>The position of the first document a filter selects.\<close>

fun first_match :: "spec \<Rightarrow> document list \<Rightarrow> nat option" where
  "first_match sp [] = None"
| "first_match sp (d # ds) =
     (if matches sp d then Some 0 else map_option Suc (first_match sp ds))"

text \<open>
  \<open>UpdateResult\<close>: \<open>modified_count\<close> is the server's \<open>nModified\<close> (0 when nothing matched
  or when the replacement equals the stored document); reading it from an unacknowledged
  result raises \<open>InvalidOperation\<close>.
\<close>

record UpdateResult =
  raw_modified :: nat
  res_acknowledged :: bool

definition modified_count :: "UpdateResult \<Rightarrow> error + nat" where
  "modified_count r = (if res_acknowledged r then Inr (raw_modified r) else Inl InvalidOperation)"

text \<open>\<open>replace_one(filter, replacement, upsert=False)\<close>.\<close>

definition replace_one ::
  "spec \<Rightarrow> document \<Rightarrow> 'a ScimApiBaseDB_scheme \<Rightarrow> (error + UpdateResult) \<times> 'a ScimApiBaseDB_scheme"
where
  "replace_one sp new db =
     (case first_match sp (docs db) of
        None \<Rightarrow>
          (Inr \<lparr>raw_modified = 0, res_acknowledged = acknowledged db\<rparr>,
           db\<lparr>trace := trace db @ [DocAccess]\<rparr>)
      | Some i \<Rightarrow>
          (case violated (indexes db) new (take i (docs db) @ drop (Suc i) (docs db)) of
             Some e \<Rightarrow> (Inl e, db\<lparr>trace := trace db @ [DocAccess]\<rparr>)
           | None \<Rightarrow>
               if docs db ! i = new
               then (Inr \<lparr>raw_modified = 0, res_acknowledged = acknowledged db\<rparr>,
                     db\<lparr>trace := trace db @ [DocAccess]\<rparr>)
               else (Inr \<lparr>raw_modified = 1, res_acknowledged = acknowledged db\<rparr>,
                     db\<lparr>docs := (docs db)[i := new],
                        trace := trace db @ [case new ''_id'' of Some (BOid k) \<Rightarrow> DocWrite k
                                              | _ \<Rightarrow> DocAccess]\<rparr>)))"

text \<open>\<open>find_one(filter)\<close>.\<close>

definition find_one ::
  "spec \<Rightarrow> 'a ScimApiBaseDB_scheme \<Rightarrow> document option \<times> 'a ScimApiBaseDB_scheme"
where
  "find_one sp db =
     (map_option (\<lambda>i. docs db ! i) (first_match sp (docs db)),
      db\<lparr>trace := trace db @ [DocAccess]\<rparr>)"

text \<open>\<open>insert_one(document)\<close>.\<close>

definition insert_one ::
  "document \<Rightarrow> 'a ScimApiBaseDB_scheme \<Rightarrow> (error + unit) \<times> 'a ScimApiBaseDB_scheme"
where
  "insert_one d db =
     (case violated (indexes db) d (docs db) of
        Some e \<Rightarrow> (Inl e, db\<lparr>trace := trace db @ [DocAccess]\<rparr>)
      | None \<Rightarrow>
          (Inr (),
           db\<lparr>docs := docs db @ [d],
              trace := trace db @ [case d ''_id'' of Some (BOid k) \<Rightarrow> DocWrite k
                                    | _ \<Rightarrow> DocAccess]\<rparr>))"

section \<open>Groups: \<open>groupdb.py\<close>\<close>

text \<open>
  The graph-store classes \<open>User\<close> and \<open>Group\<close> of \<open>eduid_groupdb\<close>, as far as the code
  reads and writes them. A slot of the member list is \<open>None\<close> where Python holds \<open>None\<close>.
\<close>

datatype GraphUser = GraphUser (u_identifier: string) (u_display_name: string)

datatype GraphGroup =
  GraphGroup (g_identifier: string) (g_display_name: string)
             (g_members: "(GraphUser + GraphGroup) option list")

record GroupExtensions =
  data :: "string \<Rightarrow> bson option"

record ScimApiGroup =
  display_name :: string
  group_id :: ObjectId
  scim_id :: UUID
  version :: ObjectId
  created :: datetime
  last_modified :: datetime
  extensions :: GroupExtensions
  graph :: "GraphGroup option"

text \<open>\<open>ScimApiGroup.to_dict\<close>: \<open>asdict\<close>, \<open>group_id\<close> renamed to \<open>_id\<close>, \<open>graph\<close> deleted.\<close>

definition ScimApiGroup_to_dict :: "ScimApiGroup \<Rightarrow> document" where
  "ScimApiGroup_to_dict g =
     [''display_name'' \<mapsto> BStr (ScimApiGroup.display_name g),
      ''scim_id'' \<mapsto> BStr (ScimApiGroup.scim_id g),
      ''version'' \<mapsto> BOid (ScimApiGroup.version g),
      ''created'' \<mapsto> BTime (ScimApiGroup.created g),
      ''last_modified'' \<mapsto> BTime (ScimApiGroup.last_modified g),
      ''extensions'' \<mapsto> BDoc [''data'' \<mapsto> BDoc (data (ScimApiGroup.extensions g))],
      ''_id'' \<mapsto> BOid (group_id g)]"

text \<open>Python's truth value of \<open>find_one\<close>'s result: \<open>None\<close> and the empty dict are false.\<close>

definition truthy :: "document option \<Rightarrow> bool" where
  "truthy r = (case r of None \<Rightarrow> False | Some d \<Rightarrow> d \<noteq> Map.empty)"

text \<open>
  \<open>ScimApiGroupDB.save\<close> (groupdb.py, lines 82 to 108). \<open>new_version\<close> is the value of
  \<open>ObjectId()\<close> and \<open>now\<close> of \<open>datetime.utcnow()\<close>. The result is the outcome (the
  exception raised, or the value returned), the caller's record and the store, as they
  are when the call ends.
\<close>

definition ScimApiGroupDB_save ::
  "ObjectId \<Rightarrow> datetime \<Rightarrow> ScimApiGroup \<Rightarrow> 'a ScimApiBaseDB_scheme
     \<Rightarrow> (error + bool) \<times> ScimApiGroup \<times> 'a ScimApiBaseDB_scheme"
where
  "ScimApiGroupDB_save new_version now grp db =
     (let group_dict = ScimApiGroup_to_dict grp;
          test_doc = [(''_id'', Eq (BOid (group_id grp))),
                      (''version'', Eq (BOid (ScimApiGroup.version grp)))];
          group_dict = group_dict(''version'' \<mapsto> BOid new_version);
          group_dict = group_dict(''last_modified'' \<mapsto> BTime now);
          saved = grp\<lparr>ScimApiGroup.version := new_version, ScimApiGroup.last_modified := now\<rparr>
      in case replace_one test_doc group_dict db of
           (Inl e, db1) \<Rightarrow> (Inl e, grp, db1)
         | (Inr result, db1) \<Rightarrow>
             (case modified_count result of
                Inl e \<Rightarrow> (Inl e, grp, db1)
              | Inr n \<Rightarrow>
                  if n = 0 then
                    (case find_one [(''_id'', Eq (BOid (group_id grp)))] db1 of
                       (db_group, db2) \<Rightarrow>
                         if truthy db_group
                         then (Inl (RuntimeError ''User out of sync, please retry''), grp, db2)
                         else (case insert_one group_dict db2 of
                                 (Inl e, db3) \<Rightarrow> (Inl e, grp, db3)
                               | (Inr u, db3) \<Rightarrow> (Inr (res_acknowledged result), saved, db3)))
                  else (Inr (res_acknowledged result), saved, db1)))"

section \<open>Invites: \<open>db/invitedb.py\<close>\<close>

text \<open>
  \<open>ScimApiName\<close>, \<open>ScimApiEmail\<close>, \<open>ScimApiPhoneNumber\<close> and \<open>ScimApiProfile\<close> come from
  \<open>eduid_scimapi.db.common\<close>; the record carries their values in the form their
  \<open>to_dict\<close> gives and their \<open>from_dict\<close> takes.
\<close>

record ScimApiInvite =
  invite_id :: ObjectId
  scim_id :: UUID
  external_id :: "string option"
  name :: bson
  emails :: "bson list"
  phone_numbers :: "bson list"
  nin :: "string option"
  preferred_language :: "string option"
  completed :: "datetime option"
  profiles :: "string \<Rightarrow> bson option"
  version :: ObjectId
  created :: datetime
  last_modified :: datetime

definition opt_str :: "string option \<Rightarrow> bson" where
  "opt_str x = (case x of None \<Rightarrow> BNull | Some s \<Rightarrow> BStr s)"

definition opt_time :: "datetime option \<Rightarrow> bson" where
  "opt_time x = (case x of None \<Rightarrow> BNull | Some t \<Rightarrow> BTime t)"

text \<open>\<open>ScimApiInvite.to_dict\<close>: \<open>asdict\<close> writes every field, \<open>None\<close> as null.\<close>

definition ScimApiInvite_to_dict :: "ScimApiInvite \<Rightarrow> document" where
  "ScimApiInvite_to_dict i =
     [''scim_id'' \<mapsto> BStr (scim_id i),
      ''external_id'' \<mapsto> opt_str (external_id i),
      ''name'' \<mapsto> name i,
      ''nin'' \<mapsto> opt_str (nin i),
      ''preferred_language'' \<mapsto> opt_str (preferred_language i),
      ''completed'' \<mapsto> opt_time (completed i),
      ''profiles'' \<mapsto> BDoc (profiles i),
      ''version'' \<mapsto> BOid (version i),
      ''created'' \<mapsto> BTime (created i),
      ''last_modified'' \<mapsto> BTime (last_modified i),
      ''_id'' \<mapsto> BOid (invite_id i),
      ''emails'' \<mapsto> BList (emails i),
      ''phone_numbers'' \<mapsto> BList (phone_numbers i)]"

text \<open>The indexes \<open>ScimApiInviteDB.__init__\<close> sets up (lines 82 to 86).\<close>

definition invite_indexes :: "index list" where
  "invite_indexes =
     [\<lparr>idx_name = ''unique-scimid'', idx_key = ''scim_id'', idx_unique = True, idx_sparse = False\<rparr>,
      \<lparr>idx_name = ''unique-external-id'', idx_key = ''external_id'', idx_unique = True,
        idx_sparse = True\<rparr>]"

text \<open>\<open>ScimApiInviteDB.save\<close> (invitedb.py, lines 88 to 114).\<close>

definition ScimApiInviteDB_save ::
  "ObjectId \<Rightarrow> datetime \<Rightarrow> ScimApiInvite \<Rightarrow> 'a ScimApiBaseDB_scheme
     \<Rightarrow> (error + bool) \<times> ScimApiInvite \<times> 'a ScimApiBaseDB_scheme"
where
  "ScimApiInviteDB_save new_version now invite db =
     (let invite_dict = ScimApiInvite_to_dict invite;
          test_doc = [(''_id'', Eq (BOid (invite_id invite))),
                      (''version'', Eq (BOid (version invite)))];
          invite_dict = invite_dict(''version'' \<mapsto> BOid new_version);
          invite_dict = invite_dict(''last_modified'' \<mapsto> BTime now);
          saved = invite\<lparr>version := new_version, last_modified := now\<rparr>
      in case replace_one test_doc invite_dict db of
           (Inl e, db1) \<Rightarrow> (Inl e, invite, db1)
         | (Inr result, db1) \<Rightarrow>
             (case modified_count result of
                Inl e \<Rightarrow> (Inl e, invite, db1)
              | Inr n \<Rightarrow>
                  if n = 0 then
                    (case find_one [(''_id'', Eq (BOid (invite_id invite)))] db1 of
                       (db_invite, db2) \<Rightarrow>
                         if truthy db_invite
                         then (Inl (RuntimeError ''Invite out of sync, please retry''), invite, db2)
                         else (case insert_one invite_dict db2 of
                                 (Inl e, db3) \<Rightarrow> (Inl e, invite, db3)
                               | (Inr u, db3) \<Rightarrow> (Inr (res_acknowledged result), saved, db3)))
                  else (Inr (res_acknowledged result), saved, db1)))"

section \<open>What a collection holds\<close>

text \<open>Whether a document with the given \<open>_id\<close> is stored, and whether one is stored under
  the given \<open>_id\<close> and \<open>version\<close>.\<close>

definition has_id :: "ObjectId \<Rightarrow> document list \<Rightarrow> bool" where
  "has_id k ds = list_ex (\<lambda>d. d ''_id'' = Some (BOid k)) ds"

definition has_id_version :: "ObjectId \<Rightarrow> ObjectId \<Rightarrow> document list \<Rightarrow> bool" where
  "has_id_version k v ds =
     list_ex (\<lambda>d. d ''_id'' = Some (BOid k) \<and> d ''version'' = Some (BOid v)) ds"

text \<open>The document \<open>save\<close> writes: \<open>to_dict\<close> with the new \<open>version\<close> and
  \<open>last_modified\<close>.\<close>

definition group_doc :: "ObjectId \<Rightarrow> datetime \<Rightarrow> ScimApiGroup \<Rightarrow> document" where
  "group_doc nv now g = (ScimApiGroup_to_dict g)(''version'' \<mapsto> BOid nv, ''last_modified'' \<mapsto> BTime now)"

definition invite_doc :: "ObjectId \<Rightarrow> datetime \<Rightarrow> ScimApiInvite \<Rightarrow> document" where
  "invite_doc nv now i = (ScimApiInvite_to_dict i)(''version'' \<mapsto> BOid nv, ''last_modified'' \<mapsto> BTime now)"

section \<open>The store calls, case by case\<close>

lemma first_match_None: "(first_match sp ds = None) = (\<not> list_ex (matches sp) ds)"
  by (induction ds) auto

lemma first_match_NoneI: "\<not> list_ex (matches sp) ds \<Longrightarrow> first_match sp ds = None"
  by (simp add: first_match_None)

lemma first_match_Some: "first_match sp ds = Some i \<Longrightarrow> i < length ds \<and> matches sp (ds ! i)"
  by (induction ds arbitrary: i) (auto split: if_splits)

lemma matches_id: "matches [(''_id'', Eq (BOid k))] d = (d ''_id'' = Some (BOid k))"
  by (cases "d ''_id''") (auto simp: matches_def)

lemma matches_id_version:
  "matches [(''_id'', Eq (BOid k)), (''version'', Eq (BOid v))] d =
     (d ''_id'' = Some (BOid k) \<and> d ''version'' = Some (BOid v))"
  by (cases "d ''_id''"; cases "d ''version''") (auto simp: matches_def)

lemma matches_id_fn: "matches [(''_id'', Eq (BOid k))] = (\<lambda>d. d ''_id'' = Some (BOid k))"
  by (rule ext) (rule matches_id)

lemma matches_id_version_fn:
  "matches [(''_id'', Eq (BOid k)), (''version'', Eq (BOid v))] =
     (\<lambda>d. d ''_id'' = Some (BOid k) \<and> d ''version'' = Some (BOid v))"
  by (rule ext) (rule matches_id_version)

lemma find_one_absent:
  "\<not> has_id k (docs db) \<Longrightarrow> find_one [(''_id'', Eq (BOid k))] db = (None, db\<lparr>trace := trace db @ [DocAccess]\<rparr>)"
  by (simp add: find_one_def has_id_def first_match_NoneI matches_id_fn)

lemma find_one_present:
  "has_id k (docs db) \<Longrightarrow> \<exists>d. find_one [(''_id'', Eq (BOid k))] db = (Some d, db\<lparr>trace := trace db @ [DocAccess]\<rparr>) \<and> d ''_id'' = Some (BOid k)"
proof -
  assume "has_id k (docs db)"
  then obtain i where i: "first_match [(''_id'', Eq (BOid k))] (docs db) = Some i"
    using first_match_None[of "[(''_id'', Eq (BOid k))]" "docs db"]
    by (cases "first_match [(''_id'', Eq (BOid k))] (docs db)") (auto simp: has_id_def matches_id_fn)
  from first_match_Some[OF i] show ?thesis
    by (simp add: find_one_def i matches_id)
qed

lemma replace_one_miss:
  "\<not> has_id_version k v (docs db) \<Longrightarrow>
   replace_one [(''_id'', Eq (BOid k)), (''version'', Eq (BOid v))] new db =
     (Inr \<lparr>raw_modified = 0, res_acknowledged = acknowledged db\<rparr>, db\<lparr>trace := trace db @ [DocAccess]\<rparr>)"
  by (simp add: replace_one_def has_id_version_def first_match_NoneI matches_id_version_fn)

lemma has_id_version_has_id: "has_id_version k v ds \<Longrightarrow> has_id k ds"
  by (auto simp: has_id_version_def has_id_def list_ex_iff)


lemma violated_is_duplicate_key: "violated ixs d others = Some e \<Longrightarrow> \<exists>m. e = DuplicateKeyError m"
  by (auto simp: violated_def duplicate_key_def split: if_splits)

lemma replace_one_cases:
  assumes "replace_one sp new db = (r, db1)"
  shows "indexes db1 = indexes db \<and> acknowledged db1 = acknowledged db \<and>
         ((\<exists>m. r = Inl (DuplicateKeyError m) \<and> docs db1 = docs db) \<or>
          (r = Inr \<lparr>raw_modified = 0, res_acknowledged = acknowledged db\<rparr> \<and> docs db1 = docs db) \<or>
          (\<exists>i. r = Inr \<lparr>raw_modified = 1, res_acknowledged = acknowledged db\<rparr> \<and>
               i < length (docs db) \<and> matches sp (docs db ! i) \<and> docs db ! i \<noteq> new \<and>
               docs db1 = (docs db)[i := new]))"
proof (cases "first_match sp (docs db)")
  case None
  with assms show ?thesis by (auto simp: replace_one_def)
next
  case (Some i)
  note fm = first_match_Some[OF Some]
  show ?thesis
  proof (cases "violated (indexes db) new (take i (docs db) @ drop (Suc i) (docs db))")
    case None
    with assms Some fm show ?thesis
      by (auto simp: replace_one_def split: if_splits)
  next
    case (Some e)
    with violated_is_duplicate_key[OF Some] assms \<open>first_match sp (docs db) = Some i\<close>
    show ?thesis by (auto simp: replace_one_def)
  qed
qed

lemma insert_one_cases:
  assumes "insert_one d db = (r, db1)"
  shows "indexes db1 = indexes db \<and> acknowledged db1 = acknowledged db \<and>
         ((\<exists>m. r = Inl (DuplicateKeyError m) \<and> docs db1 = docs db) \<or>
          (r = Inr () \<and> docs db1 = docs db @ [d]))"
proof (cases "violated (indexes db) d (docs db)")
  case None
  with assms show ?thesis by (auto simp: insert_one_def)
next
  case (Some e)
  with violated_is_duplicate_key[OF Some] assms show ?thesis by (auto simp: insert_one_def)
qed

lemma find_one_cases:
  assumes "find_one [(''_id'', Eq (BOid k))] db = (r, db1)"
  shows "indexes db1 = indexes db \<and> acknowledged db1 = acknowledged db \<and> docs db1 = docs db \<and>
         truthy r = has_id k (docs db)"
proof (cases "has_id k (docs db)")
  case True
  from find_one_present[OF True] assms show ?thesis
    by (auto simp: truthy_def True)
next
  case False
  from find_one_absent[OF False] assms show ?thesis
    by (auto simp: truthy_def False)
qed

section \<open>\<open>save\<close>, case by case\<close>

lemma group_save_insert:
  assumes "acknowledged db" "\<not> has_id (group_id g) (docs db)"
  shows "ScimApiGroupDB_save nv now g db =
     (case violated (indexes db) (group_doc nv now g) (docs db) of
        None \<Rightarrow> (Inr True, g\<lparr>ScimApiGroup.version := nv, ScimApiGroup.last_modified := now\<rparr>,
                 db\<lparr>docs := docs db @ [group_doc nv now g],
                    trace := trace db @ [DocAccess, DocAccess, DocWrite (group_id g)]\<rparr>)
      | Some e \<Rightarrow> (Inl e, g, db\<lparr>trace := trace db @ [DocAccess, DocAccess, DocAccess]\<rparr>))"
proof -
  have nv: "\<not> has_id_version (group_id g) (ScimApiGroup.version g) (docs db)"
    using assms(2) has_id_version_has_id by blast
  have id: "group_doc nv now g ''_id'' = Some (BOid (group_id g))"
    by (simp add: group_doc_def ScimApiGroup_to_dict_def)
  show ?thesis
    using assms
    by (simp add: ScimApiGroupDB_save_def Let_def replace_one_miss[OF nv] modified_count_def
        find_one_absent truthy_def insert_one_def group_doc_def[symmetric] id
        split: option.splits)
qed

lemma group_save_cases:
  assumes "ScimApiGroupDB_save nv now g db = (r, g', db')"
  shows "indexes db' = indexes db \<and> acknowledged db' = acknowledged db \<and>
    ((r = Inr True \<and> g' = g\<lparr>ScimApiGroup.version := nv, ScimApiGroup.last_modified := now\<rparr> \<and>
        acknowledged db \<and>
        ((\<not> has_id (group_id g) (docs db) \<and> docs db' = docs db @ [group_doc nv now g]) \<or>
         (\<exists>i<length (docs db). (docs db ! i) ''_id'' = Some (BOid (group_id g)) \<and>
              (docs db ! i) ''version'' = Some (BOid (ScimApiGroup.version g)) \<and>
              docs db' = (docs db)[i := group_doc nv now g]))) \<or>
     (r = Inl (RuntimeError ''User out of sync, please retry'') \<and> g' = g \<and> docs db' = docs db \<and>
        has_id (group_id g) (docs db) \<and>
        (has_id_version (group_id g) (ScimApiGroup.version g) (docs db) \<longrightarrow> nv = ScimApiGroup.version g)) \<or>
     (\<exists>m. r = Inl (DuplicateKeyError m) \<and> g' = g \<and> docs db' = docs db) \<or>
     (r = Inl InvalidOperation \<and> g' = g \<and> \<not> acknowledged db))"
proof -
  let ?test = "[(''_id'', Eq (BOid (group_id g))), (''version'', Eq (BOid (ScimApiGroup.version g)))]"
  let ?new = "group_doc nv now g"
  let ?saved = "g\<lparr>ScimApiGroup.version := nv, ScimApiGroup.last_modified := now\<rparr>"
  obtain r1 db1 where r1: "replace_one ?test ?new db = (r1, db1)" by fastforce
  obtain r2 db2 where r2: "find_one [(''_id'', Eq (BOid (group_id g)))] db1 = (r2, db2)" by fastforce
  obtain r3 db3 where r3: "insert_one ?new db2 = (r3, db3)" by fastforce
  note c1 = replace_one_cases[OF r1] and c2 = find_one_cases[OF r2] and c3 = insert_one_cases[OF r3]
  have unf: "ScimApiGroupDB_save nv now g db =
     (case r1 of Inl e \<Rightarrow> (Inl e, g, db1)
      | Inr result \<Rightarrow>
         (case modified_count result of Inl e \<Rightarrow> (Inl e, g, db1)
          | Inr n \<Rightarrow> if n = 0 then
               (if truthy r2 then (Inl (RuntimeError ''User out of sync, please retry''), g, db2)
                else (case r3 of Inl e \<Rightarrow> (Inl e, g, db3)
                      | Inr u \<Rightarrow> (Inr (res_acknowledged result), ?saved, db3)))
             else (Inr (res_acknowledged result), ?saved, db1)))"
    using r1 r2 r3 unfolding ScimApiGroupDB_save_def Let_def group_doc_def
    by (simp split: sum.splits)
  have hv: "has_id_version (group_id g) (ScimApiGroup.version g) (docs db) \<Longrightarrow>
            r1 = Inr \<lparr>raw_modified = 0, res_acknowledged = acknowledged db\<rparr> \<Longrightarrow> nv = ScimApiGroup.version g"
  proof -
    assume h: "has_id_version (group_id g) (ScimApiGroup.version g) (docs db)"
       and z: "r1 = Inr \<lparr>raw_modified = 0, res_acknowledged = acknowledged db\<rparr>"
    from h obtain i where i: "first_match ?test (docs db) = Some i"
      using first_match_None[of ?test "docs db"]
      by (cases "first_match ?test (docs db)") (auto simp: has_id_version_def matches_id_version_fn)
    from first_match_Some[OF i] have m: "matches ?test (docs db ! i)" by simp
    from r1 i z have "docs db ! i = ?new"
      by (simp add: replace_one_def split: option.splits if_splits)
    with m have "matches ?test ?new" by simp
    then show ?thesis by (simp add: matches_id_version group_doc_def)
  qed
  from c1 have base: "indexes db1 = indexes db" "acknowledged db1 = acknowledged db" by simp_all
  from c1 consider
      (dup) m where "r1 = Inl (DuplicateKeyError m)" "docs db1 = docs db"
    | (miss) "r1 = Inr \<lparr>raw_modified = 0, res_acknowledged = acknowledged db\<rparr>" "docs db1 = docs db"
    | (hit) i where "r1 = Inr \<lparr>raw_modified = 1, res_acknowledged = acknowledged db\<rparr>"
        "i < length (docs db)" "matches ?test (docs db ! i)" "docs db1 = (docs db)[i := ?new]"
    by blast
  then show ?thesis
  proof cases
    case dup
    with assms unf have "r = Inl (DuplicateKeyError m)" "g' = g" "db' = db1" by simp_all
    with base dup show ?thesis by simp
  next
    case hit
    show ?thesis
    proof (cases "acknowledged db")
      case True
      with assms unf base hit have "r = Inr True" "g' = ?saved" "db' = db1"
        by (simp_all add: modified_count_def)
      with hit True base show ?thesis
        by (auto simp: matches_id_version)
    next
      case False
      with assms unf hit have "r = Inl InvalidOperation" "g' = g" "db' = db1"
        by (simp_all add: modified_count_def)
      with base False show ?thesis by simp
    qed
  next
    case miss
    show ?thesis
    proof (cases "acknowledged db")
      case False
      with assms unf miss have "r = Inl InvalidOperation" "g' = g" "db' = db1"
        by (simp_all add: modified_count_def)
      with base False show ?thesis by simp
    next
      case True
      note ack = True
      from c2 base miss have b2: "indexes db2 = indexes db" "acknowledged db2 = acknowledged db"
        "docs db2 = docs db" "truthy r2 = has_id (group_id g) (docs db)" by simp_all
      show ?thesis
      proof (cases "has_id (group_id g) (docs db)")
        case True
        with assms unf miss ack b2
        have "r = Inl (RuntimeError ''User out of sync, please retry'')" "g' = g" "db' = db2"
          by (simp_all add: modified_count_def)
        with b2 True hv[OF _ miss(1)] show ?thesis by simp
      next
        case False
        from c3 b2 have b3: "indexes db3 = indexes db" "acknowledged db3 = acknowledged db" by simp_all
        from c3 b2 consider (d3) m where "r3 = Inl (DuplicateKeyError m)" "docs db3 = docs db"
          | (ok3) "r3 = Inr ()" "docs db3 = docs db @ [?new]" by auto
        then show ?thesis
        proof cases
          case d3
          with assms unf miss ack b2 False
          have "r = Inl (DuplicateKeyError m)" "g' = g" "db' = db3"
            by (simp_all add: modified_count_def)
          with b3 d3 show ?thesis by simp
        next
          case ok3
          with assms unf miss ack b2 False
          have "r = Inr True" "g' = ?saved" "db' = db3"
            by (simp_all add: modified_count_def)
          with b3 ok3 ack False show ?thesis by simp
        qed
      qed
    qed
  qed
qed

lemma invite_save_insert:
  assumes "acknowledged db" "\<not> has_id (invite_id g) (docs db)"
  shows "ScimApiInviteDB_save nv now g db =
     (case violated (indexes db) (invite_doc nv now g) (docs db) of
        None \<Rightarrow> (Inr True, g\<lparr>version := nv, last_modified := now\<rparr>,
                 db\<lparr>docs := docs db @ [invite_doc nv now g],
                    trace := trace db @ [DocAccess, DocAccess, DocWrite (invite_id g)]\<rparr>)
      | Some e \<Rightarrow> (Inl e, g, db\<lparr>trace := trace db @ [DocAccess, DocAccess, DocAccess]\<rparr>))"
proof -
  have nv: "\<not> has_id_version (invite_id g) (version g) (docs db)"
    using assms(2) has_id_version_has_id by blast
  have id: "invite_doc nv now g ''_id'' = Some (BOid (invite_id g))"
    by (simp add: invite_doc_def ScimApiInvite_to_dict_def)
  show ?thesis
    using assms
    by (simp add: ScimApiInviteDB_save_def Let_def replace_one_miss[OF nv] modified_count_def
        find_one_absent truthy_def insert_one_def invite_doc_def[symmetric] id
        split: option.splits)
qed

lemma invite_save_cases:
  assumes "ScimApiInviteDB_save nv now g db = (r, g', db')"
  shows "indexes db' = indexes db \<and> acknowledged db' = acknowledged db \<and>
    ((r = Inr True \<and> g' = g\<lparr>version := nv, last_modified := now\<rparr> \<and>
        acknowledged db \<and>
        ((\<not> has_id (invite_id g) (docs db) \<and> docs db' = docs db @ [invite_doc nv now g]) \<or>
         (\<exists>i<length (docs db). (docs db ! i) ''_id'' = Some (BOid (invite_id g)) \<and>
              (docs db ! i) ''version'' = Some (BOid (version g)) \<and>
              docs db' = (docs db)[i := invite_doc nv now g]))) \<or>
     (r = Inl (RuntimeError ''Invite out of sync, please retry'') \<and> g' = g \<and> docs db' = docs db \<and>
        has_id (invite_id g) (docs db) \<and>
        (has_id_version (invite_id g) (version g) (docs db) \<longrightarrow> nv = version g)) \<or>
     (\<exists>m. r = Inl (DuplicateKeyError m) \<and> g' = g \<and> docs db' = docs db) \<or>
     (r = Inl InvalidOperation \<and> g' = g \<and> \<not> acknowledged db))"
proof -
  let ?test = "[(''_id'', Eq (BOid (invite_id g))), (''version'', Eq (BOid (version g)))]"
  let ?new = "invite_doc nv now g"
  let ?saved = "g\<lparr>version := nv, last_modified := now\<rparr>"
  obtain r1 db1 where r1: "replace_one ?test ?new db = (r1, db1)" by fastforce
  obtain r2 db2 where r2: "find_one [(''_id'', Eq (BOid (invite_id g)))] db1 = (r2, db2)" by fastforce
  obtain r3 db3 where r3: "insert_one ?new db2 = (r3, db3)" by fastforce
  note c1 = replace_one_cases[OF r1] and c2 = find_one_cases[OF r2] and c3 = insert_one_cases[OF r3]
  have unf: "ScimApiInviteDB_save nv now g db =
     (case r1 of Inl e \<Rightarrow> (Inl e, g, db1)
      | Inr result \<Rightarrow>
         (case modified_count result of Inl e \<Rightarrow> (Inl e, g, db1)
          | Inr n \<Rightarrow> if n = 0 then
               (if truthy r2 then (Inl (RuntimeError ''Invite out of sync, please retry''), g, db2)
                else (case r3 of Inl e \<Rightarrow> (Inl e, g, db3)
                      | Inr u \<Rightarrow> (Inr (res_acknowledged result), ?saved, db3)))
             else (Inr (res_acknowledged result), ?saved, db1)))"
    using r1 r2 r3 unfolding ScimApiInviteDB_save_def Let_def invite_doc_def
    by (simp split: sum.splits)
  have hv: "has_id_version (invite_id g) (version g) (docs db) \<Longrightarrow>
            r1 = Inr \<lparr>raw_modified = 0, res_acknowledged = acknowledged db\<rparr> \<Longrightarrow> nv = version g"
  proof -
    assume h: "has_id_version (invite_id g) (version g) (docs db)"
       and z: "r1 = Inr \<lparr>raw_modified = 0, res_acknowledged = acknowledged db\<rparr>"
    from h obtain i where i: "first_match ?test (docs db) = Some i"
      using first_match_None[of ?test "docs db"]
      by (cases "first_match ?test (docs db)") (auto simp: has_id_version_def matches_id_version_fn)
    from first_match_Some[OF i] have m: "matches ?test (docs db ! i)" by simp
    from r1 i z have "docs db ! i = ?new"
      by (simp add: replace_one_def split: option.splits if_splits)
    with m have "matches ?test ?new" by simp
    then show ?thesis by (simp add: matches_id_version invite_doc_def)
  qed
  from c1 have base: "indexes db1 = indexes db" "acknowledged db1 = acknowledged db" by simp_all
  from c1 consider
      (dup) m where "r1 = Inl (DuplicateKeyError m)" "docs db1 = docs db"
    | (miss) "r1 = Inr \<lparr>raw_modified = 0, res_acknowledged = acknowledged db\<rparr>" "docs db1 = docs db"
    | (hit) i where "r1 = Inr \<lparr>raw_modified = 1, res_acknowledged = acknowledged db\<rparr>"
        "i < length (docs db)" "matches ?test (docs db ! i)" "docs db1 = (docs db)[i := ?new]"
    by blast
  then show ?thesis
  proof cases
    case dup
    with assms unf have "r = Inl (DuplicateKeyError m)" "g' = g" "db' = db1" by simp_all
    with base dup show ?thesis by simp
  next
    case hit
    show ?thesis
    proof (cases "acknowledged db")
      case True
      with assms unf base hit have "r = Inr True" "g' = ?saved" "db' = db1"
        by (simp_all add: modified_count_def)
      with hit True base show ?thesis
        by (auto simp: matches_id_version)
    next
      case False
      with assms unf hit have "r = Inl InvalidOperation" "g' = g" "db' = db1"
        by (simp_all add: modified_count_def)
      with base False show ?thesis by simp
    qed
  next
    case miss
    show ?thesis
    proof (cases "acknowledged db")
      case False
      with assms unf miss have "r = Inl InvalidOperation" "g' = g" "db' = db1"
        by (simp_all add: modified_count_def)
      with base False show ?thesis by simp
    next
      case True
      note ack = True
      from c2 base miss have b2: "indexes db2 = indexes db" "acknowledged db2 = acknowledged db"
        "docs db2 = docs db" "truthy r2 = has_id (invite_id g) (docs db)" by simp_all
      show ?thesis
      proof (cases "has_id (invite_id g) (docs db)")
        case True
        with assms unf miss ack b2
        have "r = Inl (RuntimeError ''Invite out of sync, please retry'')" "g' = g" "db' = db2"
          by (simp_all add: modified_count_def)
        with b2 True hv[OF _ miss(1)] show ?thesis by simp
      next
        case False
        from c3 b2 have b3: "indexes db3 = indexes db" "acknowledged db3 = acknowledged db" by simp_all
        from c3 b2 consider (d3) m where "r3 = Inl (DuplicateKeyError m)" "docs db3 = docs db"
          | (ok3) "r3 = Inr ()" "docs db3 = docs db @ [?new]" by auto
        then show ?thesis
        proof cases
          case d3
          with assms unf miss ack b2 False
          have "r = Inl (DuplicateKeyError m)" "g' = g" "db' = db3"
            by (simp_all add: modified_count_def)
          with b3 d3 show ?thesis by simp
        next
          case ok3
          with assms unf miss ack b2 False
          have "r = Inr True" "g' = ?saved" "db' = db3"
            by (simp_all add: modified_count_def)
          with b3 ok3 ack False show ?thesis by simp
        qed
      qed
    qed
  qed
qed

section \<open>Concrete records and stores\<close>

text \<open>A group and an invite as a caller holds them (read at version 4), and a collection
  with the default write concern.\<close>

definition ex_group :: ScimApiGroup where
  "ex_group = \<lparr>display_name = ''staff'', group_id = 1, scim_id = ''g-1'', version = 4,
     created = 10, last_modified = 10, extensions = \<lparr>data = Map.empty\<rparr>,
     graph = Some (GraphGroup ''g-1'' ''staff'' [])\<rparr>"

definition ex_invite :: ScimApiInvite where
  "ex_invite = \<lparr>invite_id = 1, scim_id = ''i-1'', external_id = Some ''x'', name = BNull,
     emails = [], phone_numbers = [], nin = None, preferred_language = None, completed = None,
     profiles = Map.empty, version = 4, created = 10, last_modified = 10\<rparr>"

definition ex_db :: "document list \<Rightarrow> index list \<Rightarrow> ScimApiBaseDB" where
  "ex_db ds ixs = \<lparr>docs = ds, indexes = ixs, acknowledged = True, trace = []\<rparr>"

lemma doc_neq: "d k \<noteq> d' k \<Longrightarrow> (d = d') = False"
  by auto

lemmas save_eval =
  ScimApiGroupDB_save_def ScimApiInviteDB_save_def replace_one_def find_one_def insert_one_def
  modified_count_def truthy_def violated_def collides_def index_entry_def duplicate_key_def
  matches_def ScimApiGroup_to_dict_def ScimApiInvite_to_dict_def ex_group_def ex_invite_def
  ex_db_def invite_indexes_def opt_str_def opt_time_def has_id_def has_id_version_def
  group_doc_def invite_doc_def Let_def

section \<open>The optimistic save protocol\<close>

text \<open>
  C10. Whenever \<open>save\<close> ends with the conflict failure (\<open>RuntimeError\<close>, "out of sync"),
  the caller's record is the one passed in, with its \<open>version\<close> and \<open>last_modified\<close>, and
  the collection holds the documents it held before: nothing was replaced or inserted. A
  document with the record's \<open>_id\<close> is stored, and when the minted version differs from the
  record's, none is stored under the record's \<open>_id\<close> and \<open>version\<close>. This holds for
  \<open>ScimApiGroupDB.save\<close> and for \<open>ScimApiInviteDB.save\<close>.
\<close>

theorem save_conflict_changes_nothing:
  "(ScimApiGroupDB_save nv now g db = (Inl (RuntimeError m), g', db') \<longrightarrow>
      g' = g \<and> docs db' = docs db \<and> indexes db' = indexes db \<and>
      has_id (group_id g) (docs db) \<and>
      (nv \<noteq> ScimApiGroup.version g \<longrightarrow>
         \<not> has_id_version (group_id g) (ScimApiGroup.version g) (docs db))) \<and>
   (ScimApiInviteDB_save nv now i idb = (Inl (RuntimeError m), i', idb') \<longrightarrow>
      i' = i \<and> docs idb' = docs idb \<and> indexes idb' = indexes idb \<and>
      has_id (invite_id i) (docs idb) \<and>
      (nv \<noteq> version i \<longrightarrow> \<not> has_id_version (invite_id i) (version i) (docs idb)))"
proof (intro conjI impI)
  assume a: "ScimApiGroupDB_save nv now g db = (Inl (RuntimeError m), g', db')"
  from group_save_cases[OF a]
  show "g' = g" "docs db' = docs db" "indexes db' = indexes db" "has_id (group_id g) (docs db)"
    by auto
  assume "nv \<noteq> ScimApiGroup.version g"
  with group_save_cases[OF a]
  show "\<not> has_id_version (group_id g) (ScimApiGroup.version g) (docs db)"
    by auto
next
  assume a: "ScimApiInviteDB_save nv now i idb = (Inl (RuntimeError m), i', idb')"
  from invite_save_cases[OF a]
  show "i' = i" "docs idb' = docs idb" "indexes idb' = indexes idb" "has_id (invite_id i) (docs idb)"
    by auto
  assume "nv \<noteq> version i"
  with invite_save_cases[OF a]
  show "\<not> has_id_version (invite_id i) (version i) (docs idb)"
    by auto
qed

text \<open>The stored group and invite are at version 5, the callers read version 4.\<close>

theorem save_conflict_changes_nothing_witness:
  "fst (ScimApiGroupDB_save 9 100 ex_group
          (ex_db [ScimApiGroup_to_dict (ex_group\<lparr>ScimApiGroup.version := 5\<rparr>)] [])) =
     Inl (RuntimeError ''User out of sync, please retry'') \<and>
   fst (snd (ScimApiGroupDB_save 9 100 ex_group
          (ex_db [ScimApiGroup_to_dict (ex_group\<lparr>ScimApiGroup.version := 5\<rparr>)] []))) = ex_group \<and>
   docs (snd (snd (ScimApiGroupDB_save 9 100 ex_group
          (ex_db [ScimApiGroup_to_dict (ex_group\<lparr>ScimApiGroup.version := 5\<rparr>)] [])))) =
     [ScimApiGroup_to_dict (ex_group\<lparr>ScimApiGroup.version := 5\<rparr>)] \<and>
   fst (ScimApiInviteDB_save 9 100 ex_invite
          (ex_db [ScimApiInvite_to_dict (ex_invite\<lparr>version := 5\<rparr>)] invite_indexes)) =
     Inl (RuntimeError ''Invite out of sync, please retry'') \<and>
   fst (snd (ScimApiInviteDB_save 9 100 ex_invite
          (ex_db [ScimApiInvite_to_dict (ex_invite\<lparr>version := 5\<rparr>)] invite_indexes))) = ex_invite \<and>
   docs (snd (snd (ScimApiInviteDB_save 9 100 ex_invite
          (ex_db [ScimApiInvite_to_dict (ex_invite\<lparr>version := 5\<rparr>)] invite_indexes)))) =
     [ScimApiInvite_to_dict (ex_invite\<lparr>version := 5\<rparr>)]"
proof -
  let ?gdb = "ex_db [ScimApiGroup_to_dict (ex_group\<lparr>ScimApiGroup.version := 5\<rparr>)] []"
  let ?idb = "ex_db [ScimApiInvite_to_dict (ex_invite\<lparr>version := 5\<rparr>)] invite_indexes"
  let ?gs = "ScimApiGroupDB_save 9 100 ex_group ?gdb"
  let ?is = "ScimApiInviteDB_save 9 100 ex_invite ?idb"
  have g1: "fst ?gs = Inl (RuntimeError ''User out of sync, please retry'')"
    by (simp add: save_eval)
  have i1: "fst ?is = Inl (RuntimeError ''Invite out of sync, please retry'')"
    by (simp add: save_eval)
  have g2: "?gs = (Inl (RuntimeError ''User out of sync, please retry''), fst (snd ?gs), snd (snd ?gs))"
    by (metis g1 prod.collapse)
  have i2: "?is = (Inl (RuntimeError ''Invite out of sync, please retry''), fst (snd ?is), snd (snd ?is))"
    by (metis i1 prod.collapse)
  have dg: "docs ?gdb = [ScimApiGroup_to_dict (ex_group\<lparr>ScimApiGroup.version := 5\<rparr>)]"
    and di: "docs ?idb = [ScimApiInvite_to_dict (ex_invite\<lparr>version := 5\<rparr>)]"
    by (simp_all add: ex_db_def)
  from save_conflict_changes_nothing[THEN conjunct1, rule_format, OF g2]
    save_conflict_changes_nothing[THEN conjunct2, rule_format, OF i2] g1 i1 dg di
  show ?thesis by simp
qed


lemma truthy_present: "d ''_id'' = Some (BOid k) \<Longrightarrow> truthy (Some d)"
  by (auto simp: truthy_def)

lemma group_save_conflict:
  assumes "acknowledged db" "has_id (group_id g) (docs db)"
    "\<not> has_id_version (group_id g) (ScimApiGroup.version g) (docs db)"
  shows "ScimApiGroupDB_save nv now g db =
     (Inl (RuntimeError ''User out of sync, please retry''), g,
      db\<lparr>trace := trace db @ [DocAccess, DocAccess]\<rparr>)"
proof -
  let ?db1 = "db\<lparr>trace := trace db @ [DocAccess]\<rparr>"
  have "has_id (group_id g) (docs ?db1)" using assms(2) by simp
  from find_one_present[OF this] obtain d where
    d: "find_one [(''_id'', Eq (BOid (group_id g)))] ?db1 =
          (Some d, ?db1\<lparr>trace := trace ?db1 @ [DocAccess]\<rparr>)" "d ''_id'' = Some (BOid (group_id g))"
    by blast
  show ?thesis
    using assms(1) d
    by (simp add: ScimApiGroupDB_save_def Let_def replace_one_miss[OF assms(3)] modified_count_def
        truthy_present)
qed

lemma invite_save_conflict:
  assumes "acknowledged db" "has_id (invite_id g) (docs db)"
    "\<not> has_id_version (invite_id g) (version g) (docs db)"
  shows "ScimApiInviteDB_save nv now g db =
     (Inl (RuntimeError ''Invite out of sync, please retry''), g,
      db\<lparr>trace := trace db @ [DocAccess, DocAccess]\<rparr>)"
proof -
  let ?db1 = "db\<lparr>trace := trace db @ [DocAccess]\<rparr>"
  have "has_id (invite_id g) (docs ?db1)" using assms(2) by simp
  from find_one_present[OF this] obtain d where
    d: "find_one [(''_id'', Eq (BOid (invite_id g)))] ?db1 =
          (Some d, ?db1\<lparr>trace := trace ?db1 @ [DocAccess]\<rparr>)" "d ''_id'' = Some (BOid (invite_id g))"
    by blast
  show ?thesis
    using assms(1) d
    by (simp add: ScimApiInviteDB_save_def Let_def replace_one_miss[OF assms(3)] modified_count_def
        truthy_present)
qed

subsection \<open>The supply of object identifiers\<close>





lemma group_save_commit:
  assumes "ScimApiGroupDB_save nv now g db = (Inr True, g', db')"
  shows "g' = g\<lparr>ScimApiGroup.version := nv, ScimApiGroup.last_modified := now\<rparr>"
    and "ScimApiGroup_to_dict g' = group_doc nv now g"
    and "docs db' = docs db @ [group_doc nv now g] \<or>
         (\<exists>j<length (docs db). docs db' = (docs db)[j := group_doc nv now g])"
proof -
  from group_save_cases[OF assms]
  show g': "g' = g\<lparr>ScimApiGroup.version := nv, ScimApiGroup.last_modified := now\<rparr>" by auto
  then show "ScimApiGroup_to_dict g' = group_doc nv now g"
    by (auto simp: ScimApiGroup_to_dict_def group_doc_def)
  from group_save_cases[OF assms]
  show "docs db' = docs db @ [group_doc nv now g] \<or>
       (\<exists>j<length (docs db). docs db' = (docs db)[j := group_doc nv now g])"
    by auto
qed




text \<open>
  C1 as the specification states it: a record whose \<open>_id\<close> is not stored is always
  inserted. On the invite collection this fails: no stored document has \<open>_id\<close> 2, the new
  invite repeats the \<open>external_id\<close> of the stored one, the insert violates the index
  \<open>unique-external-id\<close>, \<open>save\<close> raises the duplicate key error and the collection holds
  what it held.
\<close>

theorem save_absent_id_not_inserted_counterexample:
  "\<not> has_id 2 (docs (ex_db [ScimApiInvite_to_dict ex_invite] invite_indexes)) \<and>
   fst (ScimApiInviteDB_save 9 100 (ex_invite\<lparr>invite_id := 2, scim_id := ''i-2''\<rparr>)
          (ex_db [ScimApiInvite_to_dict ex_invite] invite_indexes)) =
     Inl (DuplicateKeyError ''E11000 duplicate key error index: unique-external-id'') \<and>
   docs (snd (snd (ScimApiInviteDB_save 9 100 (ex_invite\<lparr>invite_id := 2, scim_id := ''i-2''\<rparr>)
          (ex_db [ScimApiInvite_to_dict ex_invite] invite_indexes)))) =
     [ScimApiInvite_to_dict ex_invite]"
  by (simp add: save_eval)

text \<open>
  C1, amended. On a collection whose writes are acknowledged, for \<open>ScimApiGroupDB.save\<close>
  and \<open>ScimApiInviteDB.save\<close>: when no stored document has the record's \<open>_id\<close>, \<open>save\<close> does
  not report the conflict; it inserts the new document and returns \<open>True\<close> unless the
  insert violates a unique index of the collection, and then it raises that duplicate key
  error and stores nothing. When a document with the record's \<open>_id\<close> is stored and none
  under the record's \<open>_id\<close> and \<open>version\<close>, \<open>save\<close> raises the conflict (\<open>RuntimeError\<close>),
  and neither the record nor the stored documents change.
\<close>

theorem save_inserts_or_conflicts:
  assumes "acknowledged gdb" and "acknowledged idb"
  shows
   "(\<not> has_id (group_id g) (docs gdb) \<longrightarrow>
       ScimApiGroupDB_save nv now g gdb =
         (case violated (indexes gdb) (group_doc nv now g) (docs gdb) of
            None \<Rightarrow> (Inr True,
                     g\<lparr>ScimApiGroup.version := nv, ScimApiGroup.last_modified := now\<rparr>,
                     gdb\<lparr>docs := docs gdb @ [group_doc nv now g],
                         trace := trace gdb @ [DocAccess, DocAccess, DocWrite (group_id g)]\<rparr>)
          | Some e \<Rightarrow> (Inl e, g, gdb\<lparr>trace := trace gdb @ [DocAccess, DocAccess, DocAccess]\<rparr>)) \<and>
       (\<forall>e. violated (indexes gdb) (group_doc nv now g) (docs gdb) = Some e \<longrightarrow>
              (\<exists>m. e = DuplicateKeyError m))) \<and>
    (has_id (group_id g) (docs gdb) \<and>
     \<not> has_id_version (group_id g) (ScimApiGroup.version g) (docs gdb) \<longrightarrow>
       ScimApiGroupDB_save nv now g gdb =
         (Inl (RuntimeError ''User out of sync, please retry''), g,
          gdb\<lparr>trace := trace gdb @ [DocAccess, DocAccess]\<rparr>)) \<and>
    (\<not> has_id (invite_id i) (docs idb) \<longrightarrow>
       ScimApiInviteDB_save nv now i idb =
         (case violated (indexes idb) (invite_doc nv now i) (docs idb) of
            None \<Rightarrow> (Inr True, i\<lparr>version := nv, last_modified := now\<rparr>,
                     idb\<lparr>docs := docs idb @ [invite_doc nv now i],
                         trace := trace idb @ [DocAccess, DocAccess, DocWrite (invite_id i)]\<rparr>)
          | Some e \<Rightarrow> (Inl e, i, idb\<lparr>trace := trace idb @ [DocAccess, DocAccess, DocAccess]\<rparr>)) \<and>
       (\<forall>e. violated (indexes idb) (invite_doc nv now i) (docs idb) = Some e \<longrightarrow>
              (\<exists>m. e = DuplicateKeyError m))) \<and>
    (has_id (invite_id i) (docs idb) \<and> \<not> has_id_version (invite_id i) (version i) (docs idb) \<longrightarrow>
       ScimApiInviteDB_save nv now i idb =
         (Inl (RuntimeError ''Invite out of sync, please retry''), i,
          idb\<lparr>trace := trace idb @ [DocAccess, DocAccess]\<rparr>))"
  using assms
  by (intro conjI impI allI)
     (simp_all add: group_save_insert invite_save_insert group_save_conflict invite_save_conflict
        violated_is_duplicate_key)

text \<open>A new group and a new invite are inserted into empty collections; a group and an
  invite stored at version 5 and read at version 4 are refused.\<close>

theorem save_inserts_or_conflicts_witness:
  "fst (ScimApiGroupDB_save 9 100 ex_group (ex_db [] [])) = Inr True \<and>
   docs (snd (snd (ScimApiGroupDB_save 9 100 ex_group (ex_db [] [])))) = [group_doc 9 100 ex_group] \<and>
   fst (ScimApiGroupDB_save 9 100 ex_group
          (ex_db [ScimApiGroup_to_dict (ex_group\<lparr>ScimApiGroup.version := 5\<rparr>)] [])) =
     Inl (RuntimeError ''User out of sync, please retry'') \<and>
   fst (ScimApiInviteDB_save 9 100 ex_invite (ex_db [] invite_indexes)) = Inr True \<and>
   docs (snd (snd (ScimApiInviteDB_save 9 100 ex_invite (ex_db [] invite_indexes)))) =
     [invite_doc 9 100 ex_invite] \<and>
   fst (ScimApiInviteDB_save 9 100 ex_invite
          (ex_db [ScimApiInvite_to_dict (ex_invite\<lparr>version := 5\<rparr>)] invite_indexes)) =
     Inl (RuntimeError ''Invite out of sync, please retry'')"
proof -
  let ?g0 = "ex_db [] []" and ?i0 = "ex_db [] invite_indexes"
  let ?g5 = "ex_db [ScimApiGroup_to_dict (ex_group\<lparr>ScimApiGroup.version := 5\<rparr>)] []"
  let ?i5 = "ex_db [ScimApiInvite_to_dict (ex_invite\<lparr>version := 5\<rparr>)] invite_indexes"
  have ack: "acknowledged ?g0" "acknowledged ?i0" "acknowledged ?g5" "acknowledged ?i5"
    by (simp_all add: ex_db_def)
  have absent: "\<not> has_id (group_id ex_group) (docs ?g0)" "\<not> has_id (invite_id ex_invite) (docs ?i0)"
    by (simp_all add: ex_db_def has_id_def)
  have stale:
    "has_id (group_id ex_group) (docs ?g5) \<and>
     \<not> has_id_version (group_id ex_group) (ScimApiGroup.version ex_group) (docs ?g5)"
    "has_id (invite_id ex_invite) (docs ?i5) \<and>
     \<not> has_id_version (invite_id ex_invite) (version ex_invite) (docs ?i5)"
    by (simp_all add: ex_db_def has_id_def has_id_version_def ex_group_def ex_invite_def
        ScimApiGroup_to_dict_def ScimApiInvite_to_dict_def)
  have free: "violated (indexes ?g0) (group_doc 9 100 ex_group) (docs ?g0) = None"
    "violated (indexes ?i0) (invite_doc 9 100 ex_invite) (docs ?i0) = None"
    by (simp_all add: ex_db_def violated_def invite_indexes_def collides_def)
  note t = save_inserts_or_conflicts[of ?g0 ?i0 ex_group 9 100 ex_invite, OF ack(1) ack(2)]
    and u = save_inserts_or_conflicts[of ?g5 ?i5 ex_group 9 100 ex_invite, OF ack(3) ack(4)]
  from t[THEN conjunct1, rule_format, OF absent(1)] free(1)
  have a: "fst (ScimApiGroupDB_save 9 100 ex_group ?g0) = Inr True"
    "docs (snd (snd (ScimApiGroupDB_save 9 100 ex_group ?g0))) = [group_doc 9 100 ex_group]"
    by (simp_all add: ex_db_def)
  from t[THEN conjunct2, THEN conjunct2, THEN conjunct1, rule_format, OF absent(2)] free(2)
  have b: "fst (ScimApiInviteDB_save 9 100 ex_invite ?i0) = Inr True"
    "docs (snd (snd (ScimApiInviteDB_save 9 100 ex_invite ?i0))) = [invite_doc 9 100 ex_invite]"
    by (simp_all add: ex_db_def)
  from u[THEN conjunct2, THEN conjunct1, rule_format, OF stale(1)]
  have c: "fst (ScimApiGroupDB_save 9 100 ex_group ?g5) =
     Inl (RuntimeError ''User out of sync, please retry'')" by simp
  from u[THEN conjunct2, THEN conjunct2, THEN conjunct2, rule_format, OF stale(2)]
  have d: "fst (ScimApiInviteDB_save 9 100 ex_invite ?i5) =
     Inl (RuntimeError ''Invite out of sync, please retry'')" by simp
  from a b c d show ?thesis by simp
qed


section \<open>The document store adapter: \<open>basedb.py\<close>\<close>

text \<open>
  \<open>db_count\<close> and \<open>_get_documents_by_filter\<close> are methods of \<open>BaseDB\<close> (package
  \<open>eduid_userdb\<close>). \<open>db_count\<close> counts the documents a filter selects.
  \<open>_get_documents_by_filter\<close> is as the docstring in \<open>basedb.py\<close> has it: with
  \<open>raise_on_missing\<close> it raises \<open>DocumentDoesNotExist\<close> when no document matches the
  filter, without it the result is then the empty list; otherwise the matching documents
  are returned after \<open>skip\<close> and up to \<open>limit\<close> of them (pymongo: a negative \<open>skip\<close> raises
  \<open>ValueError\<close>, \<open>limit\<close> 0 is no limit, a negative \<open>limit\<close> counts as its absolute value).
  \<open>flds\<close> (the parameter \<open>fields\<close>) is the projection applied to each returned document.
\<close>

definition db_count :: "spec \<Rightarrow> 'a ScimApiBaseDB_scheme \<Rightarrow> int \<times> 'a ScimApiBaseDB_scheme" where
  "db_count sp db =
     (int (length (filter (matches sp) (docs db))), db\<lparr>trace := trace db @ [DocAccess]\<rparr>)"

definition get_documents_by_filter ::
  "spec \<Rightarrow> (document \<Rightarrow> document) option \<Rightarrow> int option \<Rightarrow> int option \<Rightarrow> bool
     \<Rightarrow> 'a ScimApiBaseDB_scheme \<Rightarrow> (error + document list) \<times> 'a ScimApiBaseDB_scheme"
where
  "get_documents_by_filter sp flds limit skip raise_on_missing db =
     (let found = filter (matches sp) (docs db);
          db1 = db\<lparr>trace := trace db @ [DocAccess]\<rparr>
      in if found = [] then
           (if raise_on_missing then (Inl DocumentDoesNotExist, db1) else (Inr [], db1))
         else if (case skip of None \<Rightarrow> False | Some s \<Rightarrow> s < 0) then
           (Inl (ValueError ''skip must be >= 0''), db1)
         else
           (let skipped = (case skip of None \<Rightarrow> found | Some s \<Rightarrow> drop (nat s) found);
                page = (case limit of None \<Rightarrow> skipped
                        | Some l \<Rightarrow> if l = 0 then skipped else take (nat \<bar>l\<bar>) skipped)
            in (Inr (case flds of None \<Rightarrow> page | Some f \<Rightarrow> map f page), db1)))"

text \<open>
  \<open>ScimApiBaseDB._get_documents_and_count_by_filter\<close> (basedb.py, lines 10 to 40). The
  count and the query are two calls to the store; \<open>others\<close> is what other writers do to
  the collection between them (the identity when there are none).
\<close>

definition get_documents_and_count_by_filter ::
  "(document list \<Rightarrow> document list) \<Rightarrow> spec \<Rightarrow> (document \<Rightarrow> document) option \<Rightarrow> int option
     \<Rightarrow> int option \<Rightarrow> bool \<Rightarrow> 'a ScimApiBaseDB_scheme
     \<Rightarrow> (error + document list \<times> int) \<times> 'a ScimApiBaseDB_scheme"
where
  "get_documents_and_count_by_filter others sp flds limit skip raise_on_missing db =
     (case db_count sp db of
        (total_count, db1) \<Rightarrow>
          (case get_documents_by_filter sp flds limit skip raise_on_missing
                  (db1\<lparr>docs := others (docs db1)\<rparr>) of
             (Inl e, db2) \<Rightarrow> (Inl e, db2)
           | (Inr ds, db2) \<Rightarrow>
               (let num_docs = int (length ds);
                    total_count =
                      (if (case limit of None \<Rightarrow> True | Some l \<Rightarrow> num_docs < l)
                       then (case skip of None \<Rightarrow> num_docs | Some s \<Rightarrow> num_docs + s)
                       else total_count)
                in (Inr (ds, total_count), db2))))"

section \<open>The last-modified range query: \<open>db/invitedb.py\<close>\<close>

text \<open>
  What the constructor of \<open>ScimApiInvite\<close> takes where a document lacks the field: the
  values of \<open>ObjectId()\<close>, of the two \<open>datetime.utcnow()\<close> and of \<open>ScimApiName()\<close>.
\<close>

record defaults =
  d_version :: ObjectId
  d_created :: datetime
  d_last_modified :: datetime
  d_name :: bson

text \<open>
  \<open>ScimApiInvite.from_dict\<close> (lines 52 to 75). \<open>scim_id\<close>, \<open>_id\<close> and \<open>profiles\<close> are
  indexed (\<open>KeyError\<close> when missing), the other keys are read with their defaults. A value
  that is not of the field's type is reported as \<open>TypeError\<close>.
\<close>

definition get_str :: "document \<Rightarrow> string \<Rightarrow> error + string option" where
  "get_str d k = (case d k of None \<Rightarrow> Inr None | Some BNull \<Rightarrow> Inr None
                  | Some (BStr s) \<Rightarrow> Inr (Some s) | Some _ \<Rightarrow> Inl TypeError)"

definition get_list :: "document \<Rightarrow> string \<Rightarrow> error + bson list" where
  "get_list d k = (case d k of None \<Rightarrow> Inr [] | Some (BList xs) \<Rightarrow> Inr xs | Some _ \<Rightarrow> Inl TypeError)"

definition get_time :: "document \<Rightarrow> string \<Rightarrow> datetime \<Rightarrow> error + datetime" where
  "get_time d k dflt = (case d k of None \<Rightarrow> Inr dflt | Some (BTime t) \<Rightarrow> Inr t | Some _ \<Rightarrow> Inl TypeError)"

definition get_opt_time :: "document \<Rightarrow> string \<Rightarrow> error + datetime option" where
  "get_opt_time d k = (case d k of None \<Rightarrow> Inr None | Some BNull \<Rightarrow> Inr None
                       | Some (BTime t) \<Rightarrow> Inr (Some t) | Some _ \<Rightarrow> Inl TypeError)"

definition get_oid :: "document \<Rightarrow> string \<Rightarrow> ObjectId \<Rightarrow> error + ObjectId" where
  "get_oid d k dflt = (case d k of None \<Rightarrow> Inr dflt | Some (BOid v) \<Rightarrow> Inr v | Some _ \<Rightarrow> Inl TypeError)"

definition index_str :: "document \<Rightarrow> string \<Rightarrow> error + string" where
  "index_str d k = (case d k of None \<Rightarrow> Inl (KeyError k) | Some (BStr s) \<Rightarrow> Inr s
                    | Some _ \<Rightarrow> Inl TypeError)"

definition index_oid :: "document \<Rightarrow> string \<Rightarrow> error + ObjectId" where
  "index_oid d k = (case d k of None \<Rightarrow> Inl (KeyError k) | Some (BOid v) \<Rightarrow> Inr v
                    | Some _ \<Rightarrow> Inl TypeError)"

definition index_doc :: "document \<Rightarrow> string \<Rightarrow> error + document" where
  "index_doc d k = (case d k of None \<Rightarrow> Inl (KeyError k) | Some (BDoc m) \<Rightarrow> Inr m
                    | Some _ \<Rightarrow> Inl TypeError)"

text \<open>An exception ends the evaluation: \<open>and_then m f\<close> goes on with \<open>f\<close> unless \<open>m\<close> raised.\<close>

definition and_then :: "error + 'a \<Rightarrow> ('a \<Rightarrow> error + 'b) \<Rightarrow> error + 'b" where
  "and_then m f = (case m of Inl e \<Rightarrow> Inl e | Inr x \<Rightarrow> f x)"

definition ScimApiInvite_from_dict :: "defaults \<Rightarrow> document \<Rightarrow> error + ScimApiInvite" where
  "ScimApiInvite_from_dict dflt d =
     and_then (index_str d ''scim_id'') (\<lambda>sid.
     and_then (index_oid d ''_id'') (\<lambda>iid.
     and_then (get_list d ''emails'') (\<lambda>ems.
     and_then (get_list d ''phone_numbers'') (\<lambda>phs.
     and_then (index_doc d ''profiles'') (\<lambda>prof.
     and_then (get_str d ''external_id'') (\<lambda>ext.
     and_then (get_str d ''nin'') (\<lambda>ni.
     and_then (get_str d ''preferred_language'') (\<lambda>lang.
     and_then (get_opt_time d ''completed'') (\<lambda>compl.
     and_then (get_oid d ''version'' (d_version dflt)) (\<lambda>ver.
     and_then (get_time d ''created'' (d_created dflt)) (\<lambda>cr.
     and_then (get_time d ''last_modified'' (d_last_modified dflt)) (\<lambda>lm.
       Inr \<lparr>invite_id = iid, scim_id = sid, external_id = ext,
            name = (case d ''name'' of None \<Rightarrow> d_name dflt | Some n \<Rightarrow> n),
            emails = ems, phone_numbers = phs, nin = ni,
            preferred_language = lang, completed = compl, profiles = prof,
            version = ver, created = cr, last_modified = lm\<rparr>))))))))))))"

text \<open>The list comprehension \<open>[ScimApiInvite.from_dict(x) for x in docs]\<close>: the first
  exception ends it. The \<open>n\<close>-th call takes the defaults \<open>dflt n\<close>.\<close>

fun from_dicts :: "(nat \<Rightarrow> defaults) \<Rightarrow> nat \<Rightarrow> document list \<Rightarrow> error + ScimApiInvite list" where
  "from_dicts dflt n [] = Inr []"
| "from_dicts dflt n (x # xs) =
     (case ScimApiInvite_from_dict (dflt n) x of
        Inl e \<Rightarrow> Inl e
      | Inr i \<Rightarrow> (case from_dicts dflt (Suc n) xs of Inl e \<Rightarrow> Inl e | Inr is \<Rightarrow> Inr (i # is)))"

text \<open>\<open>ScimApiInviteDB.get_invites_by_last_modified\<close> (lines 125 to 135). The call of the
  adapter passes no \<open>raise_on_missing\<close>, so the parameter has its default, \<open>True\<close>.\<close>

definition get_invites_by_last_modified ::
  "(document list \<Rightarrow> document list) \<Rightarrow> (nat \<Rightarrow> defaults) \<Rightarrow> string \<Rightarrow> datetime \<Rightarrow> int option
     \<Rightarrow> int option \<Rightarrow> 'a ScimApiBaseDB_scheme
     \<Rightarrow> (error + ScimApiInvite list \<times> int) \<times> 'a ScimApiBaseDB_scheme"
where
  "get_invites_by_last_modified others dflt operator val limit skip db =
     (case map_of [(''gt'', ''$gt''), (''ge'', ''$gte'')] operator of
        None \<Rightarrow> (Inl (ValueError ''Invalid filter operator''), db)
      | Some mongo_operator \<Rightarrow>
          if mongo_operator = [] then (Inl (ValueError ''Invalid filter operator''), db)
          else
            (let sp = [(''last_modified'', Op mongo_operator (BTime val))] in
             case get_documents_and_count_by_filter others sp None limit skip True db of
               (Inl e, db1) \<Rightarrow> (Inl e, db1)
             | (Inr (ds, total_count), db1) \<Rightarrow>
                 (case from_dicts dflt 0 ds of
                    Inl e \<Rightarrow> (Inl e, db1)
                  | Inr invites \<Rightarrow> (Inr (invites, total_count), db1))))"

section \<open>The total count and the empty page\<close>

definition ex_doc :: "nat \<Rightarrow> document" where
  "ex_doc k = [''_id'' \<mapsto> BOid k]"

definition ex_defaults :: "nat \<Rightarrow> defaults" where
  "ex_defaults n = \<lparr>d_version = 0, d_created = 0, d_last_modified = 0, d_name = BNull\<rparr>"

lemmas query_eval =
  get_documents_and_count_by_filter_def get_documents_by_filter_def db_count_def matches_def
  ex_db_def ex_doc_def Let_def

text \<open>
  C3. For every query through \<open>_get_documents_and_count_by_filter\<close> that returns: when
  \<open>limit\<close> was not given, or fewer documents than \<open>limit\<close> are returned, the reported total
  is \<open>skip\<close> (0 when \<open>skip\<close> is not given) plus the number of returned documents, whatever
  the initial count was; when the returned page has exactly \<open>limit\<close> documents, the
  reported total is the initial count, the number of documents that matched when
  \<open>db_count\<close> ran.
\<close>

theorem total_count_correction:
  assumes "get_documents_and_count_by_filter others sp flds limit skip raise_on_missing db =
             (Inr (page, tot), db')"
  shows "(limit = None \<or> (\<exists>l. limit = Some l \<and> int (length page) < l) \<longrightarrow>
            tot = (case skip of None \<Rightarrow> 0 | Some s \<Rightarrow> s) + int (length page)) \<and>
         ((\<exists>l. limit = Some l \<and> int (length page) = l) \<longrightarrow>
            tot = fst (db_count sp db) \<and>
            tot = int (length (filter (matches sp) (docs db))))"
proof -
  obtain r db2 where
    r: "get_documents_by_filter sp flds limit skip raise_on_missing
          (db\<lparr>trace := trace db @ [DocAccess], docs := others (docs db)\<rparr>) = (r, db2)"
    by fastforce
  from assms r have p: "r = Inr page"
    by (cases r) (simp_all add: get_documents_and_count_by_filter_def db_count_def Let_def)
  from assms r p have t:
    "tot = (if (case limit of None \<Rightarrow> True | Some l \<Rightarrow> int (length page) < l)
              then (case skip of None \<Rightarrow> int (length page) | Some s \<Rightarrow> int (length page) + s)
              else int (length (filter (matches sp) (docs db))))"
    by (simp add: get_documents_and_count_by_filter_def db_count_def Let_def)
  show ?thesis
    by (cases limit; cases skip) (auto simp: t db_count_def)
qed

text \<open>Three documents, pages of two: the last page (one document after skipping two),
  a full page, and a page read after two documents were removed behind the count.\<close>

theorem total_count_correction_witness:
  "fst (get_documents_and_count_by_filter id [] None (Some 2) (Some 2) False
          (ex_db [ex_doc 1, ex_doc 2, ex_doc 3] [])) = Inr ([ex_doc 3], 3) \<and>
   fst (get_documents_and_count_by_filter id [] None (Some 2) (Some 0) False
          (ex_db [ex_doc 1, ex_doc 2, ex_doc 3] [])) = Inr ([ex_doc 1, ex_doc 2], 3) \<and>
   fst (get_documents_and_count_by_filter (take 1) [] None (Some 2) (Some 1) False
          (ex_db [ex_doc 1, ex_doc 2, ex_doc 3] [])) = Inr ([], 1)"
proof -
  let ?db = "ex_db [ex_doc 1, ex_doc 2, ex_doc 3] []"
  let ?a = "get_documents_and_count_by_filter id [] None (Some 2) (Some 2) False ?db"
  let ?b = "get_documents_and_count_by_filter id [] None (Some 2) (Some 0) False ?db"
  let ?c = "get_documents_and_count_by_filter (take 1) [] None (Some 2) (Some 1) False ?db"
  have pa: "\<exists>n. ?a = (Inr ([ex_doc 3], n), snd ?a)"
    and pb: "\<exists>n. ?b = (Inr ([ex_doc 1, ex_doc 2], n), snd ?b)"
    and pc: "\<exists>n. ?c = (Inr ([], n), snd ?c)"
    by (simp_all add: get_documents_and_count_by_filter_def get_documents_by_filter_def
        db_count_def matches_def ex_db_def Let_def)
  from pa obtain na where na: "?a = (Inr ([ex_doc 3], na), snd ?a)" by blast
  from pb obtain nb where nb: "?b = (Inr ([ex_doc 1, ex_doc 2], nb), snd ?b)" by blast
  from pc obtain nc where nc: "?c = (Inr ([], nc), snd ?c)" by blast
  have "na = 3" using total_count_correction[OF na] by simp
  moreover have "nb = 3" using total_count_correction[OF nb]
    by (simp add: matches_def ex_db_def)
  moreover have "nc = 1" using total_count_correction[OF nc] by simp
  ultimately show ?thesis using na nb nc by (metis fst_conv)
qed

text \<open>
  C8 as the specification states it: an empty page comes with count 0, and the
  last-modified range query returns an empty page when nothing matches. On an empty
  collection the adapter, asked not to raise and to skip 20, returns the empty page with
  total 20; the range query, which passes no \<open>raise_on_missing\<close>, raises
  \<open>DocumentDoesNotExist\<close>.
\<close>

theorem empty_page_count_counterexample:
  "fst (get_documents_and_count_by_filter id [] None (Some 10) (Some 20) False (ex_db [] [])) =
     Inr ([], 20) \<and>
   fst (get_invites_by_last_modified id ex_defaults ''gt'' 0 None None (ex_db [] invite_indexes)) =
     Inl DocumentDoesNotExist"
  by (simp add: get_invites_by_last_modified_def query_eval)

text \<open>
  C8, amended. When no document matches the filter: with \<open>raise_on_missing\<close> true (the
  parameter's default) the adapter raises \<open>DocumentDoesNotExist\<close>; with \<open>raise_on_missing\<close>
  false it returns the empty page, and the reported total is \<open>skip\<close> (0 when \<open>skip\<close> is not
  given) when \<open>limit\<close> is not given or is positive, and the initial count otherwise.
\<close>

theorem no_match_raises_or_empty_page:
  assumes "filter (matches sp) (others (docs db)) = []"
  shows "fst (get_documents_and_count_by_filter others sp flds limit skip True db) =
           Inl DocumentDoesNotExist \<and>
         fst (get_documents_and_count_by_filter others sp flds limit skip False db) =
           Inr ([], if (case limit of None \<Rightarrow> True | Some l \<Rightarrow> 0 < l)
                    then (case skip of None \<Rightarrow> 0 | Some s \<Rightarrow> s)
                    else fst (db_count sp db))"
  using assms
  by (simp add: get_documents_and_count_by_filter_def get_documents_by_filter_def db_count_def
      Let_def split: option.splits)

theorem no_match_raises_or_empty_page_witness:
  "fst (get_documents_and_count_by_filter id [(''_id'', Eq (BOid 7))] None (Some 10) (Some 20) True
          (ex_db [ex_doc 1] [])) = Inl DocumentDoesNotExist \<and>
   fst (get_documents_and_count_by_filter id [(''_id'', Eq (BOid 7))] None (Some 10) (Some 20) False
          (ex_db [ex_doc 1] [])) = Inr ([], 20)"
proof -
  have "filter (matches [(''_id'', Eq (BOid 7))]) (id (docs (ex_db [ex_doc 1] []))) = []"
    by (simp add: matches_def ex_db_def ex_doc_def)
  from no_match_raises_or_empty_page[of "[(''_id'', Eq (BOid 7))]" id "ex_db [ex_doc 1] []"
      None "Some 10" "Some 20", OF this]
  show ?thesis by simp
qed

section \<open>The operators of the range query\<close>

lemma and_then_Inr: "(and_then m f = Inr y) = (\<exists>x. m = Inr x \<and> f x = Inr y)"
  by (cases m) (simp_all add: and_then_def)

lemma from_dict_last_modified:
  assumes "ScimApiInvite_from_dict dflt d = Inr i" and "d ''last_modified'' = Some (BTime t)"
  shows "last_modified i = t"
  using assms
  by (auto simp: ScimApiInvite_from_dict_def and_then_Inr get_time_def)

lemma from_dicts_last_modified:
  assumes "from_dicts dflt n ds = Inr invs"
    and "list_all (\<lambda>d. \<exists>t. d ''last_modified'' = Some (BTime t) \<and> R t) ds"
  shows "list_all (\<lambda>i. R (last_modified i)) invs"
  using assms
proof (induction ds arbitrary: n invs)
  case Nil
  then show ?case by simp
next
  case (Cons d ds)
  from Cons.prems(1) obtain i rest where
    i: "ScimApiInvite_from_dict (dflt n) d = Inr i" and
    rest: "from_dicts dflt (Suc n) ds = Inr rest" and invs: "invs = i # rest"
    by (auto split: sum.splits)
  from Cons.prems(2) obtain t where t: "d ''last_modified'' = Some (BTime t)" "R t"
    by auto
  from from_dict_last_modified[OF i t(1)] t(2) have "R (last_modified i)" by simp
  moreover from Cons.IH[OF rest] Cons.prems(2) have "list_all (\<lambda>i. R (last_modified i)) rest"
    by simp
  ultimately show ?case by (simp add: invs)
qed

lemma limit_subset:
  "set (case limit of None \<Rightarrow> xs | Some l \<Rightarrow> if l = 0 then xs else take (nat \<bar>l\<bar>) xs) \<subseteq> set xs"
  by (cases limit) (auto dest: in_set_takeD)

lemma skip_subset:
  "set (case skip of None \<Rightarrow> xs | Some s \<Rightarrow> drop (nat s) xs) \<subseteq> set xs"
  by (cases skip) (auto dest: in_set_dropD)

lemma page_matches:
  assumes "get_documents_by_filter sp None limit skip raise_on_missing db = (Inr ds, db')"
  shows "list_all (matches sp) ds"
proof -
  let ?found = "filter (matches sp) (docs db)"
  let ?skipped = "case skip of None \<Rightarrow> ?found | Some s \<Rightarrow> drop (nat s) ?found"
  let ?page = "case limit of None \<Rightarrow> ?skipped
               | Some l \<Rightarrow> if l = 0 then ?skipped else take (nat \<bar>l\<bar>) ?skipped"
  from assms have "ds = [] \<or> ds = ?page"
    by (simp add: get_documents_by_filter_def Let_def split: if_splits)
  moreover have "set ?page \<subseteq> set ?found"
    using limit_subset[where limit = limit and xs = ?skipped]
      skip_subset[where skip = skip and xs = ?found] by (rule subset_trans)
  ultimately have "set ds \<subseteq> set ?found" by auto
  then show ?thesis by (auto simp: list_all_iff)
qed

lemma adapter_page_matches:
  assumes "get_documents_and_count_by_filter others sp None limit skip raise_on_missing db =
             (Inr (ds, n), db')"
  shows "list_all (matches sp) ds"
proof -
  obtain r db2 where
    r: "get_documents_by_filter sp None limit skip raise_on_missing
          (db\<lparr>trace := trace db @ [DocAccess], docs := others (docs db)\<rparr>) = (r, db2)"
    by fastforce
  from assms r have "r = Inr ds"
    by (cases r) (simp_all add: get_documents_and_count_by_filter_def db_count_def Let_def)
  with r page_matches show ?thesis by blast
qed

lemma matches_gt:
  "matches [(''last_modified'', Op ''$gt'' (BTime v))] d =
     (\<exists>t. d ''last_modified'' = Some (BTime t) \<and> v < t)"
proof (cases "d ''last_modified''")
  case None
  then show ?thesis by (simp add: matches_def)
next
  case (Some x)
  then show ?thesis by (cases x) (simp_all add: matches_def)
qed

lemma matches_gte:
  "matches [(''last_modified'', Op ''$gte'' (BTime v))] d =
     (\<exists>t. d ''last_modified'' = Some (BTime t) \<and> v \<le> t)"
proof (cases "d ''last_modified''")
  case None
  then show ?thesis by (simp add: matches_def)
next
  case (Some x)
  then show ?thesis by (cases x) (auto simp: matches_def)
qed

text \<open>
  C7. For an operator other than \<open>gt\<close> and \<open>ge\<close>, and any threshold,
  \<open>get_invites_by_last_modified\<close> raises \<open>ValueError\<close> ("Invalid filter operator") and the
  store is as it was, its trace included: no call reached it. For \<open>gt\<close> the query is the
  adapter's with the filter \<open>{'last_modified': {'$gt': value}}\<close>, which selects the
  documents whose \<open>last_modified\<close> is strictly greater than the threshold; for \<open>ge\<close> it is
  the filter with \<open>$gte\<close>, which selects those greater than or equal to it. Every invite
  returned is accordingly later than, or not earlier than, the threshold.
\<close>

theorem range_query_operators:
  "(operator \<noteq> ''gt'' \<and> operator \<noteq> ''ge'' \<longrightarrow>
      get_invites_by_last_modified others dflt operator v limit skip db =
        (Inl (ValueError ''Invalid filter operator''), db)) \<and>
   get_invites_by_last_modified others dflt ''gt'' v limit skip db =
     (case get_documents_and_count_by_filter others [(''last_modified'', Op ''$gt'' (BTime v))]
             None limit skip True db of
        (Inl e, db1) \<Rightarrow> (Inl e, db1)
      | (Inr (ds, n), db1) \<Rightarrow>
          (case from_dicts dflt 0 ds of Inl e \<Rightarrow> (Inl e, db1)
           | Inr invites \<Rightarrow> (Inr (invites, n), db1))) \<and>
   get_invites_by_last_modified others dflt ''ge'' v limit skip db =
     (case get_documents_and_count_by_filter others [(''last_modified'', Op ''$gte'' (BTime v))]
             None limit skip True db of
        (Inl e, db1) \<Rightarrow> (Inl e, db1)
      | (Inr (ds, n), db1) \<Rightarrow>
          (case from_dicts dflt 0 ds of Inl e \<Rightarrow> (Inl e, db1)
           | Inr invites \<Rightarrow> (Inr (invites, n), db1))) \<and>
   matches [(''last_modified'', Op ''$gt'' (BTime v))] d =
     (\<exists>t. d ''last_modified'' = Some (BTime t) \<and> v < t) \<and>
   matches [(''last_modified'', Op ''$gte'' (BTime v))] d =
     (\<exists>t. d ''last_modified'' = Some (BTime t) \<and> v \<le> t) \<and>
   (get_invites_by_last_modified others dflt ''gt'' v limit skip db = (Inr (invs, n), db') \<longrightarrow>
      list_all (\<lambda>i. v < last_modified i) invs) \<and>
   (get_invites_by_last_modified others dflt ''ge'' v limit skip db = (Inr (invs, n), db') \<longrightarrow>
      list_all (\<lambda>i. v \<le> last_modified i) invs)"
proof (intro conjI impI)
  assume "operator \<noteq> ''gt'' \<and> operator \<noteq> ''ge''"
  then show "get_invites_by_last_modified others dflt operator v limit skip db =
        (Inl (ValueError ''Invalid filter operator''), db)"
    by (simp add: get_invites_by_last_modified_def)
next
  show "get_invites_by_last_modified others dflt ''gt'' v limit skip db =
     (case get_documents_and_count_by_filter others [(''last_modified'', Op ''$gt'' (BTime v))]
             None limit skip True db of
        (Inl e, db1) \<Rightarrow> (Inl e, db1)
      | (Inr (ds, n), db1) \<Rightarrow>
          (case from_dicts dflt 0 ds of Inl e \<Rightarrow> (Inl e, db1)
           | Inr invites \<Rightarrow> (Inr (invites, n), db1)))"
    by (simp add: get_invites_by_last_modified_def)
next
  show "get_invites_by_last_modified others dflt ''ge'' v limit skip db =
     (case get_documents_and_count_by_filter others [(''last_modified'', Op ''$gte'' (BTime v))]
             None limit skip True db of
        (Inl e, db1) \<Rightarrow> (Inl e, db1)
      | (Inr (ds, n), db1) \<Rightarrow>
          (case from_dicts dflt 0 ds of Inl e \<Rightarrow> (Inl e, db1)
           | Inr invites \<Rightarrow> (Inr (invites, n), db1)))"
    by (simp add: get_invites_by_last_modified_def)
next
  show "matches [(''last_modified'', Op ''$gt'' (BTime v))] d =
     (\<exists>t. d ''last_modified'' = Some (BTime t) \<and> v < t)" by (rule matches_gt)
next
  show "matches [(''last_modified'', Op ''$gte'' (BTime v))] d =
     (\<exists>t. d ''last_modified'' = Some (BTime t) \<and> v \<le> t)" by (rule matches_gte)
next
  assume a: "get_invites_by_last_modified others dflt ''gt'' v limit skip db = (Inr (invs, n), db')"
  let ?sp = "[(''last_modified'', Op ''$gt'' (BTime v))]"
  from a obtain ds where q: "get_documents_and_count_by_filter others ?sp None limit skip True db =
      (Inr (ds, n), db')" and f: "from_dicts dflt 0 ds = Inr invs"
    by (auto simp: get_invites_by_last_modified_def split: prod.splits sum.splits)
  from adapter_page_matches[OF q]
  have "list_all (\<lambda>d. \<exists>t. d ''last_modified'' = Some (BTime t) \<and> v < t) ds"
    by (simp add: list_all_iff matches_gt)
  from from_dicts_last_modified[OF f, of "\<lambda>t. v < t", OF this]
  show "list_all (\<lambda>i. v < last_modified i) invs" .
next
  assume a: "get_invites_by_last_modified others dflt ''ge'' v limit skip db = (Inr (invs, n), db')"
  let ?sp = "[(''last_modified'', Op ''$gte'' (BTime v))]"
  from a obtain ds where q: "get_documents_and_count_by_filter others ?sp None limit skip True db =
      (Inr (ds, n), db')" and f: "from_dicts dflt 0 ds = Inr invs"
    by (auto simp: get_invites_by_last_modified_def split: prod.splits sum.splits)
  from adapter_page_matches[OF q]
  have "list_all (\<lambda>d. \<exists>t. d ''last_modified'' = Some (BTime t) \<and> v \<le> t) ds"
    by (simp add: list_all_iff matches_gte)
  from from_dicts_last_modified[OF f, of "\<lambda>t. v \<le> t", OF this]
  show "list_all (\<lambda>i. v \<le> last_modified i) invs" .
qed

text \<open>Two invites, last modified at 10 and at 20, and the threshold 10.\<close>

theorem range_query_operators_witness:
  "get_invites_by_last_modified id ex_defaults ''lt'' 10 None None
     (ex_db [ScimApiInvite_to_dict ex_invite,
             ScimApiInvite_to_dict (ex_invite\<lparr>invite_id := 2, last_modified := 20\<rparr>)]
        invite_indexes) =
     (Inl (ValueError ''Invalid filter operator''),
      ex_db [ScimApiInvite_to_dict ex_invite,
             ScimApiInvite_to_dict (ex_invite\<lparr>invite_id := 2, last_modified := 20\<rparr>)]
        invite_indexes) \<and>
   fst (get_invites_by_last_modified id ex_defaults ''gt'' 10 None None
     (ex_db [ScimApiInvite_to_dict ex_invite,
             ScimApiInvite_to_dict (ex_invite\<lparr>invite_id := 2, last_modified := 20\<rparr>)]
        invite_indexes)) =
     Inr ([ex_invite\<lparr>invite_id := 2, last_modified := 20\<rparr>], 1) \<and>
   fst (get_invites_by_last_modified id ex_defaults ''ge'' 10 None None
     (ex_db [ScimApiInvite_to_dict ex_invite,
             ScimApiInvite_to_dict (ex_invite\<lparr>invite_id := 2, last_modified := 20\<rparr>)]
        invite_indexes)) =
     Inr ([ex_invite, ex_invite\<lparr>invite_id := 2, last_modified := 20\<rparr>], 2)"
proof -
  let ?db = "ex_db [ScimApiInvite_to_dict ex_invite,
             ScimApiInvite_to_dict (ex_invite\<lparr>invite_id := 2, last_modified := 20\<rparr>)]
        invite_indexes"
  have ops: "''lt'' \<noteq> ''gt'' \<and> ''lt'' \<noteq> ''ge''" by simp
  note t = range_query_operators[of "''lt''" id ex_defaults 10 None None ?db]
  from t[THEN conjunct1, rule_format, OF ops]
  have a: "get_invites_by_last_modified id ex_defaults ''lt'' 10 None None ?db =
      (Inl (ValueError ''Invalid filter operator''), ?db)" .
  have b: "fst (get_invites_by_last_modified id ex_defaults ''gt'' 10 None None ?db) =
     Inr ([ex_invite\<lparr>invite_id := 2, last_modified := 20\<rparr>], 1)"
    by (simp add: get_invites_by_last_modified_def get_documents_and_count_by_filter_def
        get_documents_by_filter_def db_count_def matches_def ex_db_def Let_def
        ScimApiInvite_to_dict_def ScimApiInvite_from_dict_def and_then_def ex_invite_def
        opt_str_def opt_time_def index_str_def index_oid_def index_doc_def get_str_def
        get_list_def get_time_def get_opt_time_def get_oid_def)
  have c: "fst (get_invites_by_last_modified id ex_defaults ''ge'' 10 None None ?db) =
     Inr ([ex_invite, ex_invite\<lparr>invite_id := 2, last_modified := 20\<rparr>], 2)"
    by (simp add: get_invites_by_last_modified_def get_documents_and_count_by_filter_def
        get_documents_by_filter_def db_count_def matches_def ex_db_def Let_def
        ScimApiInvite_to_dict_def ScimApiInvite_from_dict_def and_then_def ex_invite_def
        opt_str_def opt_time_def index_str_def index_oid_def index_doc_def get_str_def
        get_list_def get_time_def get_opt_time_def get_oid_def)
  from a b c show ?thesis by simp
qed

section \<open>Duplicate keys at insert time\<close>

text \<open>Python's \<open>needle in haystack\<close> on strings.\<close>

fun starts_with :: "string \<Rightarrow> string \<Rightarrow> bool" where
  "starts_with [] s = True"
| "starts_with (c # cs) [] = False"
| "starts_with (c # cs) (d # ds) = (c = d \<and> starts_with cs ds)"

fun is_in :: "string \<Rightarrow> string \<Rightarrow> bool" where
  "is_in needle [] = (needle = [])"
| "is_in needle (c # cs) = (starts_with needle (c # cs) \<or> is_in needle cs)"

text \<open>
  \<open>UsersResource._save_user\<close> (resources/users.py, lines 86 to 93). The store's
  \<open>save\<close> is an argument: \<open>ctx_userdb(req).save\<close>, which follows the same protocol as
  the two \<open>save\<close> methods above. Only \<open>DuplicateKeyError\<close> is caught; every other
  exception, the \<open>RuntimeError\<close> of a conflict included, passes through.
\<close>

definition save_user ::
  "('r \<Rightarrow> 'd \<Rightarrow> (error + bool) \<times> 'r \<times> 'd) \<Rightarrow> 'r \<Rightarrow> 'd \<Rightarrow> (error + unit) \<times> 'r \<times> 'd"
where
  "save_user save db_user db =
     (case save db_user db of
        (Inl (DuplicateKeyError errmsg), u, db1) \<Rightarrow>
          if is_in ''external-id'' errmsg
          then (Inl (BadRequest ''externalID must be unique''), u, db1)
          else (Inl (BadRequest ''Duplicated key error''), u, db1)
      | (Inl e, u, db1) \<Rightarrow> (Inl e, u, db1)
      | (Inr b, u, db1) \<Rightarrow> (Inr (), u, db1))"

text \<open>
  C9. An invite without \<open>external_id\<close> is stored; a second invite, with another \<open>_id\<close>
  and another \<open>scim_id\<close> and also without \<open>external_id\<close>, is saved. \<open>to_dict\<close> writes
  the field \<open>external_id\<close> with the value null in both documents, and the sparse index
  \<open>unique-external-id\<close> leaves out only the documents that lack the field: the insert
  fails with the duplicate-key error of that index, and nothing is inserted. Handled as
  \<open>_save_user\<close> handles a save, the failure reaches the caller as the bad request
  "externalID must be unique"; a duplicate key on another index is the bad request
  "Duplicated key error", and a conflict stays the \<open>RuntimeError\<close>.
\<close>

theorem absent_external_ids_collide:
  "ScimApiInviteDB_save 5 11 (ex_invite\<lparr>invite_id := 2, scim_id := ''i-2'', external_id := None\<rparr>)
     (ex_db [ScimApiInvite_to_dict (ex_invite\<lparr>external_id := None\<rparr>)] invite_indexes) =
     (Inl (duplicate_key ''unique-external-id''),
      ex_invite\<lparr>invite_id := 2, scim_id := ''i-2'', external_id := None\<rparr>,
      (ex_db [ScimApiInvite_to_dict (ex_invite\<lparr>external_id := None\<rparr>)] invite_indexes)
        \<lparr>trace := [DocAccess, DocAccess, DocAccess]\<rparr>) \<and>
   save_user (ScimApiInviteDB_save 5 11)
     (ex_invite\<lparr>invite_id := 2, scim_id := ''i-2'', external_id := None\<rparr>)
     (ex_db [ScimApiInvite_to_dict (ex_invite\<lparr>external_id := None\<rparr>)] invite_indexes) =
     (Inl (BadRequest ''externalID must be unique''),
      ex_invite\<lparr>invite_id := 2, scim_id := ''i-2'', external_id := None\<rparr>,
      (ex_db [ScimApiInvite_to_dict (ex_invite\<lparr>external_id := None\<rparr>)] invite_indexes)
        \<lparr>trace := [DocAccess, DocAccess, DocAccess]\<rparr>) \<and>
   save_user (\<lambda>u d. (Inl (duplicate_key ''unique-scimid''), u, d)) r db =
     (Inl (BadRequest ''Duplicated key error''), r, db) \<and>
   save_user (\<lambda>u d. (Inl (RuntimeError ''User out of sync, please retry''), u, d)) r db =
     (Inl (RuntimeError ''User out of sync, please retry''), r, db)"
proof -
  have a: "ScimApiInviteDB_save 5 11
     (ex_invite\<lparr>invite_id := 2, scim_id := ''i-2'', external_id := None\<rparr>)
     (ex_db [ScimApiInvite_to_dict (ex_invite\<lparr>external_id := None\<rparr>)] invite_indexes) =
     (Inl (duplicate_key ''unique-external-id''),
      ex_invite\<lparr>invite_id := 2, scim_id := ''i-2'', external_id := None\<rparr>,
      (ex_db [ScimApiInvite_to_dict (ex_invite\<lparr>external_id := None\<rparr>)] invite_indexes)
        \<lparr>trace := [DocAccess, DocAccess, DocAccess]\<rparr>)"
    by (simp add: save_eval)
  have b: "is_in ''external-id'' (''E11000 duplicate key error index: '' @ ''unique-external-id'')"
    by simp
  have c: "\<not> is_in ''external-id'' (''E11000 duplicate key error index: '' @ ''unique-scimid'')"
    by simp
  show ?thesis
    unfolding a save_user_def using b c by (simp add: duplicate_key_def)
qed

section \<open>The group store and its graph projection: \<open>ScimApiGroupDB\<close>\<close>

text \<open>
  \<open>ScimApiGroupDB\<close> is the document collection together with the graph store
  \<open>self.graphdb\<close> (\<open>eduid_groupdb.GroupDB\<close>), here the groups it holds by identifier.
\<close>

record ScimApiGroupDB = ScimApiBaseDB +
  graphdb :: "string \<Rightarrow> GraphGroup option"

text \<open>
  \<open>GroupDB.save(group)\<close> of \<open>eduid_groupdb\<close> writes the group with its members to the
  graph store and returns the group as stored. Its failures (an unreachable store) are
  outside the model.
\<close>

definition GroupDB_save ::
  "GraphGroup \<Rightarrow> 'a ScimApiGroupDB_scheme \<Rightarrow> GraphGroup \<times> 'a ScimApiGroupDB_scheme"
where
  "GroupDB_save g db =
     (g, db\<lparr>graphdb := (graphdb db)(g_identifier g \<mapsto> g),
            trace := trace db @ [GraphWrite (g_identifier g)]\<rparr>)"

text \<open>
  The desired state of a group, \<open>eduid_scimapi.group.Group\<close>: its display name, its
  members (\<open>value\<close>, \<open>ref\<close> and \<open>display\<close> of each) and \<open>nutid_group_v1.data\<close>.
\<close>

datatype GroupMember = GroupMember (m_value: UUID) (m_ref: string) (m_display: string)

datatype SCIMGroup =
  SCIMGroup (sg_display_name: string) (sg_members: "GroupMember list")
            (sg_data: "string \<Rightarrow> bson option")

text \<open>
  \<open>Group.get_member_user\<close> and \<open>Group.get_member_group\<close> of \<open>eduid_groupdb\<close> return the
  member of that kind with the given identifier, or \<open>None\<close>. The member returned is the
  object held in the member list, which the caller then changes in place; the result
  here is its position in the list together with its value.
\<close>

fun get_member_user ::
  "string \<Rightarrow> (GraphUser + GraphGroup) option list \<Rightarrow> (nat \<times> GraphUser) option" where
  "get_member_user ident [] = None"
| "get_member_user ident (m # ms) =
     (case m of
        Some (Inl u) \<Rightarrow>
          if u_identifier u = ident then Some (0, u)
          else map_option (\<lambda>(i, x). (Suc i, x)) (get_member_user ident ms)
      | _ \<Rightarrow> map_option (\<lambda>(i, x). (Suc i, x)) (get_member_user ident ms))"

fun get_member_group ::
  "string \<Rightarrow> (GraphUser + GraphGroup) option list \<Rightarrow> (nat \<times> GraphGroup) option" where
  "get_member_group ident [] = None"
| "get_member_group ident (m # ms) =
     (case m of
        Some (Inr g) \<Rightarrow>
          if g_identifier g = ident then Some (0, g)
          else map_option (\<lambda>(i, x). (Suc i, x)) (get_member_group ident ms)
      | _ \<Rightarrow> map_option (\<lambda>(i, x). (Suc i, x)) (get_member_group ident ms))"

fun display_name_of :: "GraphUser + GraphGroup \<Rightarrow> string" where
  "display_name_of (Inl u) = u_display_name u"
| "display_name_of (Inr g) = g_display_name g"

fun with_display_name :: "string \<Rightarrow> GraphUser + GraphGroup \<Rightarrow> GraphUser + GraphGroup" where
  "with_display_name n (Inl u) = Inl (GraphUser (u_identifier u) n)"
| "with_display_name n (Inr g) = Inr (GraphGroup (g_identifier g) n (g_members g))"

text \<open>
  What the list \<open>members\<close> of \<open>update_group\<close> holds: a reference to a member of the
  graph group (by position), a new \<open>GraphUser\<close>, or \<open>None\<close>.
\<close>

datatype member_ref = Existing nat | Fresh GraphUser | Missing

fun resolve :: "(GraphUser + GraphGroup) option list \<Rightarrow> member_ref \<Rightarrow> (GraphUser + GraphGroup) option" where
  "resolve ms (Existing i) = ms ! i"
| "resolve ms (Fresh u) = Some (Inl u)"
| "resolve ms Missing = None"

text \<open>
  One round of the loop over \<open>scim_group.members\<close> (groupdb.py, lines 124 to 149). The
  state is the member list of \<open>db_group.graph\<close>, \<open>member_changed\<close> and \<open>members\<close>.
\<close>

definition member_step ::
  "GroupMember \<Rightarrow> (GraphUser + GraphGroup) option list \<times> bool \<times> member_ref list
     \<Rightarrow> (GraphUser + GraphGroup) option list \<times> bool \<times> member_ref list"
where
  "member_step member st =
     (case st of (ms, member_changed, members) \<Rightarrow>
        (let user_updated = is_in ''Users'' (m_ref member);
             group_updated = (\<not> user_updated \<and> is_in ''Groups'' (m_ref member));
             update_member =
               (if user_updated
                then map_option (\<lambda>(i, u). (i, Inl u)) (get_member_user (m_value member) ms)
                else if group_updated
                then map_option (\<lambda>(i, g). (i, Inr g)) (get_member_group (m_value member) ms)
                else None)
         in case update_member of
              None \<Rightarrow>
                (ms, True,
                 members @
                   [if user_updated then Fresh (GraphUser (m_value member) (m_display member))
                    else if group_updated then
                      (case get_member_group (m_value member) ms of
                         None \<Rightarrow> Missing
                       | Some (i, g) \<Rightarrow> Existing i)
                    else Missing])
            | Some (i, x) \<Rightarrow>
                if display_name_of x \<noteq> m_display member
                then (ms[i := Some (with_display_name (m_display member) x)], True,
                      members @ [Existing i])
                else (ms, member_changed, members @ [Existing i])))"

fun reconcile ::
  "GroupMember list \<Rightarrow> (GraphUser + GraphGroup) option list \<times> bool \<times> member_ref list
     \<Rightarrow> (GraphUser + GraphGroup) option list \<times> bool \<times> member_ref list"
where
  "reconcile [] st = st"
| "reconcile (member # rest) st = reconcile rest (member_step member st)"

text \<open>
  \<open>ScimApiGroupDB.update_group\<close> (groupdb.py, lines 119 to 177). The result is the
  outcome, \<open>db_group\<close> as the call leaves it, and the store. Without a graph group the
  first read of \<open>db_group.graph\<close> raises \<open>AttributeError\<close>. The members of the graph
  group are compared as sets of values.
\<close>

definition update_group ::
  "ObjectId \<Rightarrow> datetime \<Rightarrow> SCIMGroup \<Rightarrow> ScimApiGroup \<Rightarrow> 'a ScimApiGroupDB_scheme
     \<Rightarrow> (error + ScimApiGroup) \<times> ScimApiGroup \<times> 'a ScimApiGroupDB_scheme"
where
  "update_group new_version now scim_group db_group db =
     (case graph db_group of
        None \<Rightarrow> (Inl AttributeError, db_group, db)
      | Some g \<Rightarrow>
          (case reconcile (sg_members scim_group) (g_members g, False, []) of
             (ms, member_changed, refs) \<Rightarrow>
               (let members = map (resolve ms) refs;
                    name_changed = (g_display_name g \<noteq> sg_display_name scim_group);
                    members_changed = (member_changed \<or> set ms \<noteq> set members);
                    sg_ext = \<lparr>data = sg_data scim_group\<rparr>;
                    ext_changed = (extensions db_group \<noteq> sg_ext);
                    changed = (name_changed \<or> members_changed \<or> ext_changed);
                    g1 = GraphGroup (g_identifier g)
                           (if name_changed then sg_display_name scim_group else g_display_name g)
                           (if members_changed then members else ms);
                    db_group1 = db_group\<lparr>extensions :=
                                            (if ext_changed then sg_ext else extensions db_group),
                                          graph := Some g1\<rparr>
                in if changed then
                     (case ScimApiGroupDB_save new_version now db_group1 db of
                        (Inl e, db_group2, db1) \<Rightarrow> (Inl e, db_group2, db1)
                      | (Inr saved, db_group2, db1) \<Rightarrow>
                          if saved then
                            (case GroupDB_save g1 db1 of
                               (g2, db2) \<Rightarrow>
                                 (Inr (db_group2\<lparr>graph := Some g2\<rparr>),
                                  db_group2\<lparr>graph := Some g2\<rparr>, db2))
                          else (Inr db_group2, db_group2, db1))
                   else (Inr db_group1, db_group1, db))))"

text \<open>
  \<open>ScimApiGroupDB.create_group\<close> (groupdb.py, lines 110 to 117). The default factories
  of \<open>ScimApiGroup\<close> read \<open>ObjectId()\<close>, \<open>uuid4()\<close> and \<open>utcnow()\<close>; their values are the
  fields of \<open>fresh\<close>.
\<close>

record group_defaults =
  gd_group_id :: ObjectId
  gd_scim_id :: UUID
  gd_version :: ObjectId
  gd_created :: datetime
  gd_last_modified :: datetime

definition create_group ::
  "group_defaults \<Rightarrow> ObjectId \<Rightarrow> datetime \<Rightarrow> SCIMGroup \<Rightarrow> 'a ScimApiGroupDB_scheme
     \<Rightarrow> (error + ScimApiGroup) \<times> 'a ScimApiGroupDB_scheme"
where
  "create_group fresh new_version now scim_group db =
     (let grp = \<lparr>display_name = sg_display_name scim_group, group_id = gd_group_id fresh,
                  scim_id = gd_scim_id fresh, version = gd_version fresh,
                  created = gd_created fresh, last_modified = gd_last_modified fresh,
                  extensions = \<lparr>data = sg_data scim_group\<rparr>, graph = None\<rparr>;
          grp = grp\<lparr>graph := Some (GraphGroup (ScimApiGroup.scim_id grp) (sg_display_name scim_group) [])\<rparr>
      in case GroupDB_save (GraphGroup (ScimApiGroup.scim_id grp) (sg_display_name scim_group) []) db of
           (g, db1) \<Rightarrow>
             (case ScimApiGroupDB_save new_version now grp db1 of
                (Inl e, grp1, db2) \<Rightarrow> (Inl e, db2)
              | (Inr saved, grp1, db2) \<Rightarrow> (Inr grp1, db2)))"

text \<open>
  The order of writes in a trace: no graph-store write comes before the first committed
  write of the document \<open>k\<close>.
\<close>

fun doc_before_graph :: "ObjectId \<Rightarrow> event list \<Rightarrow> bool" where
  "doc_before_graph k [] = True"
| "doc_before_graph k (DocAccess # es) = doc_before_graph k es"
| "doc_before_graph k (DocWrite k' # es) = (k' = k \<or> doc_before_graph k es)"
| "doc_before_graph k (GraphWrite s # es) = False"

definition ex_gdb :: "document list \<Rightarrow> ScimApiGroupDB" where
  "ex_gdb ds = \<lparr>docs = ds, indexes = [], acknowledged = True, trace = [], graphdb = Map.empty\<rparr>"

section \<open>New members of a group\<close>

lemma get_member_user_None:
  "get_member_user ident ms = None \<Longrightarrow> Some (Inl u) \<in> set ms \<Longrightarrow> u_identifier u \<noteq> ident"
  by (induction ms) (auto split: option.splits sum.splits if_splits)

lemma get_member_group_None:
  "get_member_group ident ms = None \<Longrightarrow> Some (Inr g) \<in> set ms \<Longrightarrow> g_identifier g \<noteq> ident"
  by (induction ms) (auto split: option.splits sum.splits if_splits)

text \<open>
  A desired member of user type that the graph group lacks is added as a new
  \<open>GraphUser\<close> with the desired identifier and display name.
\<close>

lemma new_user_member_is_added:
  assumes "is_in ''Users'' (m_ref member)" and "get_member_user (m_value member) ms = None"
  shows "member_step member (ms, member_changed, members) =
           (ms, True, members @ [Fresh (GraphUser (m_value member) (m_display member))])"
  using assms by (simp add: member_step_def)

text \<open>
  A desired member of group type that the graph group lacks is looked up a second
  time with \<open>get_member_group\<close>, which again finds nothing: \<open>None\<close> is appended.
\<close>

lemma new_group_member_is_missing:
  assumes "\<not> is_in ''Users'' (m_ref member)" and "is_in ''Groups'' (m_ref member)"
    and "get_member_group (m_value member) ms = None"
  shows "member_step member (ms, member_changed, members) = (ms, True, members @ [Missing])"
  using assms by (simp add: member_step_def)

text \<open>
  C5. The graph group \<open>g-1\<close> has no members. A desired member of user type, \<open>u-9\<close> with
  the display name \<open>Ann\<close>, marks the membership changed and is added as the user \<open>u-9\<close>,
  \<open>Ann\<close>. A desired member of group type, \<open>g-2\<close> with the display name \<open>admins\<close>, marks
  the membership changed too, but what is added is \<open>None\<close>: the update leaves the member
  list \<open>[None]\<close> in the record and writes it to the graph store, and the identifier
  \<open>g-2\<close> and the display name \<open>admins\<close> are in neither.
\<close>

theorem new_group_member_is_none:
  "member_step (GroupMember ''u-9'' ''https://h/Users/u-9'' ''Ann'') ([], False, []) =
     ([], True, [Fresh (GraphUser ''u-9'' ''Ann'')]) \<and>
   member_step (GroupMember ''g-2'' ''https://h/Groups/g-2'' ''admins'') ([], False, []) =
     ([], True, [Missing]) \<and>
   map_sum id graph
     (fst (update_group 5 11
        (SCIMGroup ''staff'' [GroupMember ''g-2'' ''https://h/Groups/g-2'' ''admins''] Map.empty)
        ex_group (ex_gdb [ScimApiGroup_to_dict ex_group]))) =
     Inr (Some (GraphGroup ''g-1'' ''staff'' [None])) \<and>
   graphdb (snd (snd (update_group 5 11
        (SCIMGroup ''staff'' [GroupMember ''g-2'' ''https://h/Groups/g-2'' ''admins''] Map.empty)
        ex_group (ex_gdb [ScimApiGroup_to_dict ex_group])))) ''g-1'' =
     Some (GraphGroup ''g-1'' ''staff'' [None]) \<and>
   map_sum id graph
     (fst (update_group 5 11
        (SCIMGroup ''staff'' [GroupMember ''u-9'' ''https://h/Users/u-9'' ''Ann''] Map.empty)
        ex_group (ex_gdb [ScimApiGroup_to_dict ex_group]))) =
     Inr (Some (GraphGroup ''g-1'' ''staff'' [Some (Inl (GraphUser ''u-9'' ''Ann''))]))"
proof -
  have a: "member_step (GroupMember ''u-9'' ''https://h/Users/u-9'' ''Ann'') ([], False, []) =
     ([], True, [Fresh (GraphUser ''u-9'' ''Ann'')])"
    by (simp add: member_step_def)
  have b: "member_step (GroupMember ''g-2'' ''https://h/Groups/g-2'' ''admins'') ([], False, []) =
     ([], True, [Missing])"
    by (simp add: member_step_def)
  have c: "update_group 5 11
        (SCIMGroup ''staff'' [GroupMember ''g-2'' ''https://h/Groups/g-2'' ''admins''] Map.empty)
        ex_group (ex_gdb [ScimApiGroup_to_dict ex_group]) =
      (Inr (ex_group\<lparr>ScimApiGroup.version := 5, ScimApiGroup.last_modified := 11,
                     graph := Some (GraphGroup ''g-1'' ''staff'' [None])\<rparr>),
       ex_group\<lparr>ScimApiGroup.version := 5, ScimApiGroup.last_modified := 11,
                graph := Some (GraphGroup ''g-1'' ''staff'' [None])\<rparr>,
       \<lparr>docs = [group_doc 5 11 ex_group], indexes = [], acknowledged = True,
        trace = [DocWrite 1, GraphWrite ''g-1''],
        graphdb = [''g-1'' \<mapsto> GraphGroup ''g-1'' ''staff'' [None]]\<rparr>)"
    by (simp add: update_group_def b GroupDB_save_def ex_gdb_def save_eval
        doc_neq[where k = "''version''"])
  have d: "update_group 5 11
        (SCIMGroup ''staff'' [GroupMember ''u-9'' ''https://h/Users/u-9'' ''Ann''] Map.empty)
        ex_group (ex_gdb [ScimApiGroup_to_dict ex_group]) =
      (Inr (ex_group\<lparr>ScimApiGroup.version := 5, ScimApiGroup.last_modified := 11,
                     graph := Some (GraphGroup ''g-1'' ''staff''
                                      [Some (Inl (GraphUser ''u-9'' ''Ann''))])\<rparr>),
       ex_group\<lparr>ScimApiGroup.version := 5, ScimApiGroup.last_modified := 11,
                graph := Some (GraphGroup ''g-1'' ''staff''
                                 [Some (Inl (GraphUser ''u-9'' ''Ann''))])\<rparr>,
       \<lparr>docs = [group_doc 5 11 ex_group], indexes = [], acknowledged = True,
        trace = [DocWrite 1, GraphWrite ''g-1''],
        graphdb = [''g-1'' \<mapsto> GraphGroup ''g-1'' ''staff''
                                   [Some (Inl (GraphUser ''u-9'' ''Ann''))]]\<rparr>)"
    by (simp add: update_group_def a GroupDB_save_def ex_gdb_def save_eval
        doc_neq[where k = "''version''"])
  show ?thesis
    unfolding c d using a b by (simp add: ex_group_def)
qed

section \<open>The order of the two writes\<close>

lemma replace_one_frame:
  assumes "replace_one sp new db = (r, db1)" and "new ''_id'' = Some (BOid k)"
  shows "\<exists>ds e. db1 = db\<lparr>docs := ds, trace := trace db @ [e]\<rparr> \<and>
           (e = DocAccess \<or> e = DocWrite k) \<and>
           ((\<exists>u. r = Inr u \<and> raw_modified u \<noteq> 0) \<longrightarrow> e = DocWrite k)"
proof (cases "first_match sp (docs db)")
  case None
  with assms have "db1 = db\<lparr>docs := docs db, trace := trace db @ [DocAccess]\<rparr>"
    "\<not> (\<exists>u. r = Inr u \<and> raw_modified u \<noteq> 0)"
    by (auto simp: replace_one_def)
  then show ?thesis by blast
next
  case (Some i)
  show ?thesis
  proof (cases "violated (indexes db) new (take i (docs db) @ drop (Suc i) (docs db)) = None \<and>
                docs db ! i \<noteq> new")
    case True
    with assms Some have "db1 = db\<lparr>docs := (docs db)[i := new], trace := trace db @ [DocWrite k]\<rparr>"
      by (auto simp: replace_one_def)
    then show ?thesis by blast
  next
    case False
    with assms Some have "db1 = db\<lparr>docs := docs db, trace := trace db @ [DocAccess]\<rparr>"
      "\<not> (\<exists>u. r = Inr u \<and> raw_modified u \<noteq> 0)"
      by (auto simp: replace_one_def split: option.splits if_splits)
    then show ?thesis by blast
  qed
qed

lemma insert_one_frame:
  assumes "insert_one d db = (r, db1)" and "d ''_id'' = Some (BOid k)"
  shows "\<exists>ds e. db1 = db\<lparr>docs := ds, trace := trace db @ [e]\<rparr> \<and>
           (e = DocAccess \<or> e = DocWrite k) \<and> (r = Inr () \<longrightarrow> e = DocWrite k)"
proof (cases "violated (indexes db) d (docs db)")
  case None
  with assms have "db1 = db\<lparr>docs := docs db @ [d], trace := trace db @ [DocWrite k]\<rparr>"
    by (auto simp: insert_one_def)
  then show ?thesis by blast
next
  case (Some e)
  with assms have "db1 = db\<lparr>docs := docs db, trace := trace db @ [DocAccess]\<rparr>" "r \<noteq> Inr ()"
    by (auto simp: insert_one_def)
  then show ?thesis by blast
qed

text \<open>
  What \<open>ScimApiGroupDB.save\<close> does to the store: it changes the documents and extends the
  trace, by accesses and writes of the document of this group only; when it returns
  \<open>True\<close> the last of them is the committed write.
\<close>

lemma group_save_frame:
  assumes "ScimApiGroupDB_save nv now g db = (r, g', db')"
  shows "\<exists>ds evs. db' = db\<lparr>docs := ds, trace := trace db @ evs\<rparr> \<and>
           (\<forall>e\<in>set evs. e = DocAccess \<or> e = DocWrite (group_id g)) \<and>
           (r = Inr True \<longrightarrow> evs \<noteq> [] \<and> last evs = DocWrite (group_id g))"
proof -
  let ?test = "[(''_id'', Eq (BOid (group_id g))), (''version'', Eq (BOid (ScimApiGroup.version g)))]"
  let ?new = "group_doc nv now g"
  let ?saved = "g\<lparr>ScimApiGroup.version := nv, ScimApiGroup.last_modified := now\<rparr>"
  let ?k = "group_id g"
  obtain r1 db1 where r1: "replace_one ?test ?new db = (r1, db1)" by fastforce
  obtain r2 db2 where r2: "find_one [(''_id'', Eq (BOid (group_id g)))] db1 = (r2, db2)" by fastforce
  obtain r3 db3 where r3: "insert_one ?new db2 = (r3, db3)" by fastforce
  have idk: "?new ''_id'' = Some (BOid ?k)"
    by (simp add: group_doc_def ScimApiGroup_to_dict_def)
  from replace_one_frame[OF r1 idk] obtain ds1 e1 where
    f1: "db1 = db\<lparr>docs := ds1, trace := trace db @ [e1]\<rparr>"
    and e1: "e1 = DocAccess \<or> e1 = DocWrite ?k"
    and w1: "(\<exists>u. r1 = Inr u \<and> raw_modified u \<noteq> 0) \<longrightarrow> e1 = DocWrite ?k"
    by blast
  from r2 have f2: "db2 = db1\<lparr>trace := trace db1 @ [DocAccess]\<rparr>"
    by (simp add: find_one_def)
  from insert_one_frame[OF r3 idk] obtain ds3 e3 where
    f3: "db3 = db2\<lparr>docs := ds3, trace := trace db2 @ [e3]\<rparr>"
    and e3: "e3 = DocAccess \<or> e3 = DocWrite ?k"
    and w3: "r3 = Inr () \<longrightarrow> e3 = DocWrite ?k"
    by blast
  have g1: "db1 = db\<lparr>docs := ds1, trace := trace db @ [e1]\<rparr>" by (rule f1)
  have g2: "db2 = db\<lparr>docs := ds1, trace := trace db @ [e1, DocAccess]\<rparr>"
    by (simp add: f2 f1)
  have g3: "db3 = db\<lparr>docs := ds3, trace := trace db @ [e1, DocAccess, e3]\<rparr>"
    by (simp add: f3 g2)
  have unf: "ScimApiGroupDB_save nv now g db =
     (case r1 of Inl e \<Rightarrow> (Inl e, g, db1)
      | Inr result \<Rightarrow>
         (case modified_count result of Inl e \<Rightarrow> (Inl e, g, db1)
          | Inr n \<Rightarrow> if n = 0 then
               (if truthy r2 then (Inl (RuntimeError ''User out of sync, please retry''), g, db2)
                else (case r3 of Inl e \<Rightarrow> (Inl e, g, db3)
                      | Inr u \<Rightarrow> (Inr (res_acknowledged result), ?saved, db3)))
             else (Inr (res_acknowledged result), ?saved, db1)))"
    using r1 r2 r3 unfolding ScimApiGroupDB_save_def Let_def group_doc_def
    by (simp split: sum.splits)
  from assms unf consider
      (a) "db' = db1" "r = Inr True \<longrightarrow> (\<exists>u. r1 = Inr u \<and> raw_modified u \<noteq> 0)"
    | (b) "db' = db2" "r \<noteq> Inr True"
    | (c) "db' = db3" "r = Inr True \<longrightarrow> r3 = Inr ()"
    by (auto split: sum.splits if_splits simp: modified_count_def)
  then show ?thesis
  proof cases
    case a
    with w1 have "r = Inr True \<longrightarrow> e1 = DocWrite ?k" by blast
    with a(1) g1 e1 have "db' = db\<lparr>docs := ds1, trace := trace db @ [e1]\<rparr> \<and>
        (\<forall>e\<in>set [e1]. e = DocAccess \<or> e = DocWrite ?k) \<and>
        (r = Inr True \<longrightarrow> [e1] \<noteq> [] \<and> last [e1] = DocWrite ?k)" by simp
    then show ?thesis by blast
  next
    case b
    with g2 e1 have "db' = db\<lparr>docs := ds1, trace := trace db @ [e1, DocAccess]\<rparr> \<and>
        (\<forall>e\<in>set [e1, DocAccess]. e = DocAccess \<or> e = DocWrite ?k) \<and>
        (r = Inr True \<longrightarrow> [e1, DocAccess] \<noteq> [] \<and> last [e1, DocAccess] = DocWrite ?k)" by simp
    then show ?thesis by blast
  next
    case c
    with w3 have "r = Inr True \<longrightarrow> e3 = DocWrite ?k" by blast
    with c(1) g3 e1 e3 have "db' = db\<lparr>docs := ds3, trace := trace db @ [e1, DocAccess, e3]\<rparr> \<and>
        (\<forall>e\<in>set [e1, DocAccess, e3]. e = DocAccess \<or> e = DocWrite ?k) \<and>
        (r = Inr True \<longrightarrow> [e1, DocAccess, e3] \<noteq> [] \<and> last [e1, DocAccess, e3] = DocWrite ?k)"
      by simp
    then show ?thesis by blast
  qed
qed

lemma group_save_returns_True:
  assumes "ScimApiGroupDB_save nv now g db = (Inr b, g', db')"
  shows "b"
  using group_save_cases[OF assms] by auto

lemma group_save_stores:
  assumes "ScimApiGroupDB_save nv now g db = (Inr True, g', db')"
  shows "ScimApiGroup_to_dict g' \<in> set (docs db')"
proof -
  from group_save_commit[OF assms]
  have d: "ScimApiGroup_to_dict g' = group_doc nv now g"
    and s: "docs db' = docs db @ [group_doc nv now g] \<or>
       (\<exists>j<length (docs db). docs db' = (docs db)[j := group_doc nv now g])"
    by simp_all
  from s show ?thesis
  proof
    assume "docs db' = docs db @ [group_doc nv now g]"
    with d show ?thesis by simp
  next
    assume "\<exists>j<length (docs db). docs db' = (docs db)[j := group_doc nv now g]"
    then obtain j where "j < length (docs db)" "docs db' = (docs db)[j := group_doc nv now g]"
      by blast
    with d show ?thesis by (simp add: set_update_memI)
  qed
qed

lemma doc_before_graph_accesses:
  assumes "\<forall>e\<in>set evs. e = DocAccess \<or> e = DocWrite k"
  shows "doc_before_graph k (evs @ rest) = (DocWrite k \<in> set evs \<or> doc_before_graph k rest)"
  using assms by (induction evs) auto

text \<open>The events of one \<open>update_group\<close>.\<close>

lemma update_group_events:
  assumes "update_group nv now sg g db = (r, g', db')"
  shows "(\<exists>evs. trace db' = trace db @ evs \<and>
        (\<forall>e\<in>set evs. e = DocAccess \<or> e = DocWrite (group_id g))) \<or>
     (\<exists>evs ident. trace db' = trace db @ evs @ [GraphWrite ident] \<and>
        (\<forall>e\<in>set evs. e = DocAccess \<or> e = DocWrite (group_id g)) \<and>
        evs \<noteq> [] \<and> last evs = DocWrite (group_id g) \<and>
        r = Inr g' \<and> ScimApiGroup_to_dict g' \<in> set (docs db') \<and>
        graphdb db' ident = graph g')"
proof (cases "graph g")
  case None
  with assms have "trace db' = trace db @ []" by (simp add: update_group_def)
  then show ?thesis by (metis empty_iff list.set(1))
next
  case (Some gg)
  obtain ms member_changed refs where
    rec: "reconcile (sg_members sg) (g_members gg, False, []) = (ms, member_changed, refs)"
    by (metis prod_cases3)
  define members where "members = map (resolve ms) refs"
  define name_changed where "name_changed = (g_display_name gg \<noteq> sg_display_name sg)"
  define members_changed where "members_changed = (member_changed \<or> set ms \<noteq> set members)"
  define ext_changed where "ext_changed = (extensions g \<noteq> \<lparr>data = sg_data sg\<rparr>)"
  define g1 where "g1 = GraphGroup (g_identifier gg)
                           (if name_changed then sg_display_name sg else g_display_name gg)
                           (if members_changed then members else ms)"
  define db_group1 where "db_group1 = g\<lparr>extensions :=
                               (if ext_changed then \<lparr>data = sg_data sg\<rparr> else extensions g),
                             graph := Some g1\<rparr>"
  obtain r1 db_group2 db1 where sv: "ScimApiGroupDB_save nv now db_group1 db = (r1, db_group2, db1)"
    by (metis prod_cases3)
  have k: "group_id db_group1 = group_id g" by (simp add: db_group1_def)
  have unf: "update_group nv now sg g db =
     (if name_changed \<or> members_changed \<or> ext_changed then
        (case r1 of Inl e \<Rightarrow> (Inl e, db_group2, db1)
         | Inr saved \<Rightarrow>
             if saved then
               (Inr (db_group2\<lparr>graph := Some g1\<rparr>), db_group2\<lparr>graph := Some g1\<rparr>,
                db1\<lparr>graphdb := (graphdb db1)(g_identifier g1 \<mapsto> g1),
                     trace := trace db1 @ [GraphWrite (g_identifier g1)]\<rparr>)
             else (Inr db_group2, db_group2, db1))
      else (Inr db_group1, db_group1, db))"
    using Some rec sv
    unfolding update_group_def Let_def members_def name_changed_def members_changed_def
      ext_changed_def g1_def db_group1_def GroupDB_save_def
    by (simp split: sum.splits)
  from group_save_frame[OF sv] k obtain ds evs where
    fr: "db1 = db\<lparr>docs := ds, trace := trace db @ evs\<rparr>"
    and ev: "\<forall>e\<in>set evs. e = DocAccess \<or> e = DocWrite (group_id g)"
    and lst: "r1 = Inr True \<longrightarrow> evs \<noteq> [] \<and> last evs = DocWrite (group_id g)"
    by auto
  show ?thesis
  proof (cases "name_changed \<or> members_changed \<or> ext_changed")
    case False
    with assms unf have "trace db' = trace db @ []" by simp
    then show ?thesis by (metis empty_iff list.set(1))
  next
    case True
    note ch = True
    show ?thesis
    proof (cases r1)
      case (Inl e)
      with assms unf ch have "db' = db1" by simp
      with fr have "trace db' = trace db @ evs" by simp
      with ev show ?thesis by blast
    next
      case (Inr saved)
      with sv group_save_returns_True have tr: "r1 = Inr True" by blast
      with unf ch have u: "update_group nv now sg g db =
          (Inr (db_group2\<lparr>graph := Some g1\<rparr>), db_group2\<lparr>graph := Some g1\<rparr>,
            db1\<lparr>graphdb := (graphdb db1)(g_identifier g1 \<mapsto> g1),
                 trace := trace db1 @ [GraphWrite (g_identifier g1)]\<rparr>)"
        by simp
      have eq: "(r, g', db') =
          (Inr (db_group2\<lparr>graph := Some g1\<rparr>), db_group2\<lparr>graph := Some g1\<rparr>,
            db1\<lparr>graphdb := (graphdb db1)(g_identifier g1 \<mapsto> g1),
                 trace := trace db1 @ [GraphWrite (g_identifier g1)]\<rparr>)"
        using assms[symmetric] u by (rule trans)
      from eq have g': "g' = db_group2\<lparr>graph := Some g1\<rparr>" by simp
      from eq have r: "r = Inr g'" by simp
      from eq have db': "db' = db1\<lparr>graphdb := (graphdb db1)(g_identifier g1 \<mapsto> g1),
                     trace := trace db1 @ [GraphWrite (g_identifier g1)]\<rparr>"
        by simp
      from sv tr have "ScimApiGroup_to_dict db_group2 \<in> set (docs db1)"
        using group_save_stores by blast
      then have st: "ScimApiGroup_to_dict g' \<in> set (docs db')"
        by (simp add: g' db' ScimApiGroup_to_dict_def)
      from db' fr have t: "trace db' = trace db @ evs @ [GraphWrite (g_identifier g1)]" by simp
      from db' g' have gd: "graphdb db' (g_identifier g1) = graph g'" by simp
      from t ev lst tr r g' st gd show ?thesis by blast
    qed
  qed
qed

text \<open>
  C2 as the specification states it: in \<open>create_group\<close> too the graph store is written
  after the document commit. It is not: creating the group \<open>staff\<close> in an empty store
  writes the graph-store group first, and the two accesses and the committed write of
  the document follow.
\<close>

theorem create_group_writes_graph_first_counterexample:
  "trace (snd (create_group
      \<lparr>gd_group_id = 1, gd_scim_id = ''g-1'', gd_version = 4, gd_created = 10,
       gd_last_modified = 10\<rparr> 5 11 (SCIMGroup ''staff'' [] Map.empty) (ex_gdb []))) =
     [GraphWrite ''g-1'', DocAccess, DocAccess, DocWrite 1] \<and>
   \<not> doc_before_graph 1 (trace (snd (create_group
      \<lparr>gd_group_id = 1, gd_scim_id = ''g-1'', gd_version = 4, gd_created = 10,
       gd_last_modified = 10\<rparr> 5 11 (SCIMGroup ''staff'' [] Map.empty) (ex_gdb []))))"
  by (simp add: create_group_def GroupDB_save_def ex_gdb_def save_eval)

text \<open>
  C2, amended. In \<open>update_group\<close> the graph store is written at most once, as the last
  step, after \<open>save\<close> has returned \<open>True\<close>: the committed write of the group's document
  is the event just before it, the document of the returned record is stored, and the
  group written is the graph group of the returned record; when \<open>save\<close> raises, or when
  nothing changed, the graph store is not written. In \<open>create_group\<close> the order is the
  reverse: the graph-store group is written first, the document is saved after it, and
  the graph-store group stays written whatever the outcome of that \<open>save\<close>.
\<close>

theorem graph_write_order:
  "(update_group nv now sg g db = (r, g', db') \<longrightarrow>
      (\<exists>evs. trace db' = trace db @ evs \<and> doc_before_graph (group_id g) evs \<and>
         (\<forall>ident. GraphWrite ident \<in> set evs \<longrightarrow>
            (\<exists>pre. evs = pre @ [DocWrite (group_id g), GraphWrite ident] \<and>
                   (\<forall>e\<in>set pre. e = DocAccess \<or> e = DocWrite (group_id g))) \<and>
            r = Inr g' \<and> ScimApiGroup_to_dict g' \<in> set (docs db') \<and>
            graphdb db' ident = graph g'))) \<and>
   (create_group fresh nv now sg db = (r2, db2) \<longrightarrow>
      (\<exists>evs. trace db2 = trace db @ GraphWrite (gd_scim_id fresh) # evs \<and>
         (\<forall>e\<in>set evs. e = DocAccess \<or> e = DocWrite (gd_group_id fresh)) \<and>
         (\<forall>grp. r2 = Inr grp \<longrightarrow> DocWrite (gd_group_id fresh) \<in> set evs) \<and>
         graphdb db2 (gd_scim_id fresh) =
           Some (GraphGroup (gd_scim_id fresh) (sg_display_name sg) [])))"
proof (intro conjI impI)
  assume a: "update_group nv now sg g db = (r, g', db')"
  let ?k = "group_id g"
  from update_group_events[OF a] consider
      (plain) evs where "trace db' = trace db @ evs" "\<forall>e\<in>set evs. e = DocAccess \<or> e = DocWrite ?k"
    | (graph) evs ident where "trace db' = trace db @ evs @ [GraphWrite ident]"
        "\<forall>e\<in>set evs. e = DocAccess \<or> e = DocWrite ?k" "evs \<noteq> []" "last evs = DocWrite ?k"
        "r = Inr g'" "ScimApiGroup_to_dict g' \<in> set (docs db')" "graphdb db' ident = graph g'"
    by blast
  then show "\<exists>evs. trace db' = trace db @ evs \<and> doc_before_graph ?k evs \<and>
         (\<forall>ident. GraphWrite ident \<in> set evs \<longrightarrow>
            (\<exists>pre. evs = pre @ [DocWrite ?k, GraphWrite ident] \<and>
                   (\<forall>e\<in>set pre. e = DocAccess \<or> e = DocWrite ?k)) \<and>
            r = Inr g' \<and> ScimApiGroup_to_dict g' \<in> set (docs db') \<and>
            graphdb db' ident = graph g')"
  proof cases
    case plain
    from plain(2) have "doc_before_graph ?k (evs @ [])"
      by (subst doc_before_graph_accesses) simp_all
    moreover from plain(2) have "\<forall>ident. GraphWrite ident \<notin> set evs" by auto
    ultimately show ?thesis using plain(1) by auto
  next
    case graph
    from graph(3,4) obtain pre where pre: "evs = pre @ [DocWrite ?k]"
      by (metis append_butlast_last_id)
    with graph(2) have p: "\<forall>e\<in>set pre. e = DocAccess \<or> e = DocWrite ?k" by simp
    from graph(2) pre have "doc_before_graph ?k (evs @ [GraphWrite ident])"
      by (subst doc_before_graph_accesses) simp_all
    moreover have "\<forall>i. GraphWrite i \<in> set (evs @ [GraphWrite ident]) \<longrightarrow> i = ident"
      using graph(2) by auto
    moreover have "evs @ [GraphWrite ident] = pre @ [DocWrite ?k, GraphWrite ident]"
      by (simp add: pre)
    ultimately show ?thesis using graph(1,5,6,7) p by (intro exI[of _ "evs @ [GraphWrite ident]"]) auto
  qed
next
  assume a: "create_group fresh nv now sg db = (r2, db2)"
  let ?gg = "GraphGroup (gd_scim_id fresh) (sg_display_name sg) []"
  let ?grp = "\<lparr>display_name = sg_display_name sg, group_id = gd_group_id fresh,
                  scim_id = gd_scim_id fresh, version = gd_version fresh,
                  created = gd_created fresh, last_modified = gd_last_modified fresh,
                  extensions = \<lparr>data = sg_data sg\<rparr>, graph = Some ?gg\<rparr>"
  let ?db1 = "db\<lparr>graphdb := (graphdb db)(gd_scim_id fresh \<mapsto> ?gg),
                 trace := trace db @ [GraphWrite (gd_scim_id fresh)]\<rparr>"
  obtain r1 grp1 db3 where sv: "ScimApiGroupDB_save nv now ?grp ?db1 = (r1, grp1, db3)"
    by (metis prod_cases3)
  from a sv have db2: "db2 = db3" and r2: "r2 = (case r1 of Inl e \<Rightarrow> Inl e | Inr b \<Rightarrow> Inr grp1)"
    by (auto simp: create_group_def GroupDB_save_def Let_def split: sum.splits)
  from group_save_frame[OF sv] obtain ds evs where
    fr: "db3 = ?db1\<lparr>docs := ds, trace := trace ?db1 @ evs\<rparr>"
    and ev: "\<forall>e\<in>set evs. e = DocAccess \<or> e = DocWrite (gd_group_id fresh)"
    and lst: "r1 = Inr True \<longrightarrow> evs \<noteq> [] \<and> last evs = DocWrite (gd_group_id fresh)"
    by auto
  from fr db2 have t: "trace db2 = trace db @ GraphWrite (gd_scim_id fresh) # evs" by simp
  from fr db2 have gd: "graphdb db2 (gd_scim_id fresh) = Some ?gg" by simp
  have w: "\<forall>grp. r2 = Inr grp \<longrightarrow> DocWrite (gd_group_id fresh) \<in> set evs"
  proof (intro allI impI)
    fix grp assume "r2 = Inr grp"
    with r2 obtain b where b: "r1 = Inr b" by (cases r1) auto
    with sv group_save_returns_True have "r1 = Inr True" by blast
    with lst show "DocWrite (gd_group_id fresh) \<in> set evs" by (metis last_in_set)
  qed
  from t ev w gd
  show "\<exists>evs. trace db2 = trace db @ GraphWrite (gd_scim_id fresh) # evs \<and>
         (\<forall>e\<in>set evs. e = DocAccess \<or> e = DocWrite (gd_group_id fresh)) \<and>
         (\<forall>grp. r2 = Inr grp \<longrightarrow> DocWrite (gd_group_id fresh) \<in> set evs) \<and>
         graphdb db2 (gd_scim_id fresh) = Some ?gg"
    by blast
qed

text \<open>
  The group \<open>g-1\<close> is stored and gets a new display name: the document is replaced, then
  the graph store is written. The group \<open>staff\<close> is created in an empty store: the graph
  store is written, then the document is inserted.
\<close>

theorem graph_write_order_witness:
  "update_group 5 11 (SCIMGroup ''team'' [] Map.empty) ex_group
      (ex_gdb [ScimApiGroup_to_dict ex_group]) =
     (Inr (ex_group\<lparr>ScimApiGroup.version := 5, ScimApiGroup.last_modified := 11,
                    graph := Some (GraphGroup ''g-1'' ''team'' [])\<rparr>),
      ex_group\<lparr>ScimApiGroup.version := 5, ScimApiGroup.last_modified := 11,
               graph := Some (GraphGroup ''g-1'' ''team'' [])\<rparr>,
      \<lparr>docs = [group_doc 5 11 ex_group], indexes = [], acknowledged = True,
       trace = [DocWrite 1, GraphWrite ''g-1''],
       graphdb = [''g-1'' \<mapsto> GraphGroup ''g-1'' ''team'' []]\<rparr>) \<and>
   doc_before_graph (group_id ex_group) [DocWrite 1, GraphWrite ''g-1''] \<and>
   create_group \<lparr>gd_group_id = 1, gd_scim_id = ''g-1'', gd_version = 4, gd_created = 10,
       gd_last_modified = 10\<rparr> 5 11 (SCIMGroup ''staff'' [] Map.empty) (ex_gdb []) =
     (Inr (ex_group\<lparr>ScimApiGroup.version := 5, ScimApiGroup.last_modified := 11\<rparr>),
      \<lparr>docs = [group_doc 5 11 ex_group], indexes = [], acknowledged = True,
       trace = [GraphWrite ''g-1'', DocAccess, DocAccess, DocWrite 1],
       graphdb = [''g-1'' \<mapsto> GraphGroup ''g-1'' ''staff'' []]\<rparr>) \<and>
   DocWrite 1 \<in> set [DocAccess, DocAccess, DocWrite 1]"
proof -
  let ?G = "ex_group\<lparr>ScimApiGroup.version := 5, ScimApiGroup.last_modified := 11,
               graph := Some (GraphGroup ''g-1'' ''team'' [])\<rparr>"
  let ?DB = "\<lparr>docs = [group_doc 5 11 ex_group], indexes = [], acknowledged = True,
       trace = [DocWrite 1, GraphWrite ''g-1''],
       graphdb = [''g-1'' \<mapsto> GraphGroup ''g-1'' ''team'' []]\<rparr>"
  let ?F = "\<lparr>gd_group_id = 1, gd_scim_id = ''g-1'', gd_version = 4, gd_created = 10,
       gd_last_modified = 10\<rparr>"
  let ?DB2 = "\<lparr>docs = [group_doc 5 11 ex_group], indexes = [], acknowledged = True,
       trace = [GraphWrite ''g-1'', DocAccess, DocAccess, DocWrite 1],
       graphdb = [''g-1'' \<mapsto> GraphGroup ''g-1'' ''staff'' []]\<rparr>"
  have u: "update_group 5 11 (SCIMGroup ''team'' [] Map.empty) ex_group
      (ex_gdb [ScimApiGroup_to_dict ex_group]) = (Inr ?G, ?G, ?DB)"
    by (simp add: update_group_def GroupDB_save_def ex_gdb_def save_eval
        doc_neq[where k = "''version''"])
  have c: "create_group ?F 5 11 (SCIMGroup ''staff'' [] Map.empty) (ex_gdb []) =
     (Inr (ex_group\<lparr>ScimApiGroup.version := 5, ScimApiGroup.last_modified := 11\<rparr>), ?DB2)"
    by (simp add: create_group_def GroupDB_save_def ex_gdb_def save_eval)
  from graph_write_order[THEN conjunct1, rule_format, OF u] obtain evs where
    "trace ?DB = trace (ex_gdb [ScimApiGroup_to_dict ex_group]) @ evs"
    "doc_before_graph (group_id ex_group) evs"
    by blast
  then have d: "doc_before_graph (group_id ex_group) [DocWrite 1, GraphWrite ''g-1'']"
    by (simp add: ex_gdb_def)
  from graph_write_order[THEN conjunct2, rule_format, OF c] obtain evs2 where
    "trace ?DB2 = trace (ex_gdb []) @ GraphWrite (gd_scim_id ?F) # evs2"
    "\<forall>grp. Inr (ex_group\<lparr>ScimApiGroup.version := 5, ScimApiGroup.last_modified := 11\<rparr>) = Inr grp
        \<longrightarrow> DocWrite (gd_group_id ?F) \<in> set evs2"
    by blast
  then have e: "DocWrite 1 \<in> set [DocAccess, DocAccess, DocWrite 1]"
    by (simp add: ex_gdb_def)
  from u c d e show ?thesis by simp
qed

section \<open>An update that changes nothing\<close>

text \<open>
  A desired member and a member of the graph group are the same when the reference of
  the desired one names the kind of the other (\<open>Users\<close>, or else \<open>Groups\<close>, as
  \<open>update_group\<close> reads it) and identifier and display name agree.
\<close>

definition same_member :: "GroupMember \<Rightarrow> (GraphUser + GraphGroup) option \<Rightarrow> bool" where
  "same_member m x =
     (case x of
        None \<Rightarrow> False
      | Some (Inl u) \<Rightarrow>
          is_in ''Users'' (m_ref m) \<and> m_value m = u_identifier u \<and> m_display m = u_display_name u
      | Some (Inr g) \<Rightarrow>
          \<not> is_in ''Users'' (m_ref m) \<and> is_in ''Groups'' (m_ref m) \<and>
          m_value m = g_identifier g \<and> m_display m = g_display_name g)"

text \<open>The kind and the identifier of a member of a graph group.\<close>

definition member_key :: "(GraphUser + GraphGroup) option \<Rightarrow> (bool \<times> string) option" where
  "member_key x =
     (case x of
        None \<Rightarrow> None
      | Some (Inl u) \<Rightarrow> Some (True, u_identifier u)
      | Some (Inr g) \<Rightarrow> Some (False, g_identifier g))"

lemma get_member_user_Some:
  "get_member_user ident ms = Some (i, u) \<Longrightarrow>
     i < length ms \<and> ms ! i = Some (Inl u) \<and> u_identifier u = ident"
proof (induction ms arbitrary: i)
  case Nil
  then show ?case by simp
next
  case (Cons m ms)
  show ?case
  proof (cases "\<exists>v. m = Some (Inl v) \<and> u_identifier v = ident")
    case True
    with Cons.prems show ?thesis by auto
  next
    case False
    with Cons.prems have "map_option (\<lambda>(i, x). (Suc i, x)) (get_member_user ident ms) = Some (i, u)"
      by (auto split: option.splits sum.splits if_splits)
    then obtain j where "get_member_user ident ms = Some (j, u)" "i = Suc j" by auto
    with Cons.IH[of j] show ?thesis by simp
  qed
qed

lemma get_member_group_Some:
  "get_member_group ident ms = Some (i, g) \<Longrightarrow>
     i < length ms \<and> ms ! i = Some (Inr g) \<and> g_identifier g = ident"
proof (induction ms arbitrary: i)
  case Nil
  then show ?case by simp
next
  case (Cons m ms)
  show ?case
  proof (cases "\<exists>v. m = Some (Inr v) \<and> g_identifier v = ident")
    case True
    with Cons.prems show ?thesis by auto
  next
    case False
    with Cons.prems have "map_option (\<lambda>(i, x). (Suc i, x)) (get_member_group ident ms) = Some (i, g)"
      by (auto split: option.splits sum.splits if_splits)
    then obtain j where "get_member_group ident ms = Some (j, g)" "i = Suc j" by auto
    with Cons.IH[of j] show ?thesis by simp
  qed
qed

lemma member_step_same:
  assumes inj: "inj_on member_key (set ms)" and x: "x \<in> set ms" and same: "same_member m x"
  shows "\<exists>i. i < length ms \<and> ms ! i = x \<and>
           member_step m (ms, mc, refs) = (ms, mc, refs @ [Existing i])"
proof (cases x)
  case None
  with same show ?thesis by (simp add: same_member_def)
next
  case (Some y)
  show ?thesis
  proof (cases y)
    case (Inl u)
    with Some same have s: "is_in ''Users'' (m_ref m)" "m_value m = u_identifier u"
      "m_display m = u_display_name u" by (simp_all add: same_member_def)
    from x Some Inl have "Some (Inl u) \<in> set ms" by simp
    with get_member_user_None[of "m_value m" ms u] s(2)
    obtain i u' where f: "get_member_user (m_value m) ms = Some (i, u')"
      by (cases "get_member_user (m_value m) ms") auto
    from get_member_user_Some[OF f] have i: "i < length ms" "ms ! i = Some (Inl u')"
      "u_identifier u' = m_value m" by simp_all
    from i have m1: "Some (Inl u') \<in> set ms" by (metis nth_mem)
    from i(3) s(2) have keq: "member_key (Some (Inl u')) = member_key (Some (Inl u))"
      by (simp add: member_key_def)
    have "Some (Inl u') = Some (Inl u)"
      using inj keq m1 \<open>Some (Inl u) \<in> set ms\<close> unfolding inj_on_def by blast
    then have eq: "u' = u" by simp
    from f s eq have "member_step m (ms, mc, refs) = (ms, mc, refs @ [Existing i])"
      by (simp add: member_step_def)
    with i eq Some Inl show ?thesis by auto
  next
    case (Inr g)
    with Some same have s: "\<not> is_in ''Users'' (m_ref m)" "is_in ''Groups'' (m_ref m)"
      "m_value m = g_identifier g" "m_display m = g_display_name g"
      by (simp_all add: same_member_def)
    from x Some Inr have "Some (Inr g) \<in> set ms" by simp
    with get_member_group_None[of "m_value m" ms g] s(3)
    obtain i g' where f: "get_member_group (m_value m) ms = Some (i, g')"
      by (cases "get_member_group (m_value m) ms") auto
    from get_member_group_Some[OF f] have i: "i < length ms" "ms ! i = Some (Inr g')"
      "g_identifier g' = m_value m" by simp_all
    from i have m1: "Some (Inr g') \<in> set ms" by (metis nth_mem)
    from i(3) s(3) have keq: "member_key (Some (Inr g')) = member_key (Some (Inr g))"
      by (simp add: member_key_def)
    have "Some (Inr g') = Some (Inr g)"
      using inj keq m1 \<open>Some (Inr g) \<in> set ms\<close> unfolding inj_on_def by blast
    then have eq: "g' = g" by simp
    from f s eq have "member_step m (ms, mc, refs) = (ms, mc, refs @ [Existing i])"
      by (simp add: member_step_def)
    with i eq Some Inr show ?thesis by auto
  qed
qed

lemma reconcile_same:
  assumes "inj_on member_key (set ms)"
    and "\<forall>m\<in>set des. \<exists>x\<in>set ms. same_member m x"
  shows "\<exists>refs'. reconcile des (ms, mc, refs) = (ms, mc, refs @ refs') \<and>
           list_all2 (\<lambda>m r. \<exists>i. r = Existing i \<and> i < length ms \<and> same_member m (ms ! i)) des refs'"
  using assms(2)
proof (induction des arbitrary: refs)
  case Nil
  then show ?case by simp
next
  case (Cons m des)
  from Cons.prems obtain x where x: "x \<in> set ms" "same_member m x" by auto
  from member_step_same[OF assms(1) x, of mc refs] obtain i where
    i: "i < length ms" "ms ! i = x"
    "member_step m (ms, mc, refs) = (ms, mc, refs @ [Existing i])" by blast
  from Cons.prems have "\<forall>m\<in>set des. \<exists>x\<in>set ms. same_member m x" by simp
  from Cons.IH[OF this, of "refs @ [Existing i]"] obtain refs' where
    r: "reconcile des (ms, mc, refs @ [Existing i]) = (ms, mc, (refs @ [Existing i]) @ refs')"
    "list_all2 (\<lambda>m r. \<exists>i. r = Existing i \<and> i < length ms \<and> same_member m (ms ! i)) des refs'"
    by blast
  from i x r have "reconcile (m # des) (ms, mc, refs) = (ms, mc, refs @ (Existing i # refs')) \<and>
     list_all2 (\<lambda>m r. \<exists>i. r = Existing i \<and> i < length ms \<and> same_member m (ms ! i))
       (m # des) (Existing i # refs')"
    by simp
  then show ?case by blast
qed

lemma same_member_key:
  "same_member m x \<Longrightarrow> member_key x = Some (is_in ''Users'' (m_ref m), m_value m)"
  by (auto simp: same_member_def member_key_def split: option.splits sum.splits)

lemma resolved_members_same:
  assumes inj: "inj_on member_key (set ms)"
    and sur: "\<forall>x\<in>set ms. \<exists>m\<in>set des. same_member m x"
    and refs: "list_all2 (\<lambda>m r. \<exists>i. r = Existing i \<and> i < length ms \<and> same_member m (ms ! i)) des refs"
  shows "set (map (resolve ms) refs) = set ms"
proof
  show "set (map (resolve ms) refs) \<subseteq> set ms"
  proof
    fix y assume "y \<in> set (map (resolve ms) refs)"
    then obtain r where r: "r \<in> set refs" "y = resolve ms r" by auto
    from refs r(1) obtain m i where "r = Existing i" "i < length ms"
      by (auto simp: list_all2_conv_all_nth in_set_conv_nth)
    with r(2) show "y \<in> set ms" by simp
  qed
next
  show "set ms \<subseteq> set (map (resolve ms) refs)"
  proof
    fix x assume x: "x \<in> set ms"
    with sur obtain m where m: "m \<in> set des" "same_member m x" by blast
    from m(1) obtain j where j: "j < length des" "des ! j = m" by (auto simp: in_set_conv_nth)
    from refs j obtain i where i: "refs ! j = Existing i" "i < length ms" "same_member m (ms ! i)"
      "j < length refs"
      by (auto simp: list_all2_conv_all_nth)
    from same_member_key[OF m(2)] same_member_key[OF i(3)]
    have keq: "member_key (ms ! i) = member_key x" by simp
    from i(2) have "ms ! i \<in> set ms" by simp
    with inj keq x have "ms ! i = x" unfolding inj_on_def by blast
    with i(1) have "resolve ms (refs ! j) = x" by simp
    with i(4) show "x \<in> set (map (resolve ms) refs)"
      by (metis length_map nth_map nth_mem)
  qed
qed

text \<open>
  C4. The record of a stored group carries its graph group, whose members are told
  apart by kind and identifier. When the desired state has the display name of the
  graph group, the extension data of the record and the same members, with the same
  display names, \<open>update_group\<close> returns the record as it was passed, its version
  included, and the store is the one it was given: no document was written or read, the
  graph store was not written, and the trace has no new event.
\<close>

theorem identical_update_writes_nothing:
  assumes "graph g = Some gg"
    and "g_display_name gg = sg_display_name sg"
    and "data (extensions g) = sg_data sg"
    and "inj_on member_key (set (g_members gg))"
    and "\<forall>m\<in>set (sg_members sg). \<exists>x\<in>set (g_members gg). same_member m x"
    and "\<forall>x\<in>set (g_members gg). \<exists>m\<in>set (sg_members sg). same_member m x"
  shows "update_group nv now sg g db = (Inr g, g, db)"
proof -
  from reconcile_same[OF assms(4,5), of False "[]"] obtain refs where
    rec: "reconcile (sg_members sg) (g_members gg, False, []) = (g_members gg, False, refs)"
    and la: "list_all2 (\<lambda>m r. \<exists>i. r = Existing i \<and> i < length (g_members gg) \<and>
               same_member m (g_members gg ! i)) (sg_members sg) refs"
    by auto
  from resolved_members_same[OF assms(4,6) la]
  have mem: "set (g_members gg) = set (map (resolve (g_members gg)) refs)" by simp
  from assms(3) have ext: "extensions g = \<lparr>data = sg_data sg\<rparr>"
    by (cases "extensions g") simp
  have gg: "GraphGroup (g_identifier gg) (g_display_name gg) (g_members gg) = gg" by simp
  from assms(1) have same: "g\<lparr>extensions := extensions g, graph := Some gg\<rparr> = g" by simp
  show ?thesis
    unfolding update_group_def Let_def
    using assms(1,2) rec mem ext gg same by simp
qed

text \<open>
  The group \<open>g-1\<close> has the user \<open>u-1\<close> (\<open>Ann\<close>) and the group \<open>g-2\<close> (\<open>admins\<close>) as
  members; the desired state lists them in the other order.
\<close>

theorem identical_update_writes_nothing_witness:
  "update_group 5 11
     (SCIMGroup ''staff''
        [GroupMember ''g-2'' ''https://h/Groups/g-2'' ''admins'',
         GroupMember ''u-1'' ''https://h/Users/u-1'' ''Ann''] Map.empty)
     (ex_group\<lparr>graph := Some (GraphGroup ''g-1'' ''staff''
        [Some (Inl (GraphUser ''u-1'' ''Ann'')), Some (Inr (GraphGroup ''g-2'' ''admins'' []))])\<rparr>)
     (ex_gdb [ScimApiGroup_to_dict ex_group]) =
   (Inr (ex_group\<lparr>graph := Some (GraphGroup ''g-1'' ''staff''
        [Some (Inl (GraphUser ''u-1'' ''Ann'')), Some (Inr (GraphGroup ''g-2'' ''admins'' []))])\<rparr>),
    ex_group\<lparr>graph := Some (GraphGroup ''g-1'' ''staff''
        [Some (Inl (GraphUser ''u-1'' ''Ann'')), Some (Inr (GraphGroup ''g-2'' ''admins'' []))])\<rparr>,
    ex_gdb [ScimApiGroup_to_dict ex_group])"
proof -
  let ?gg = "GraphGroup ''g-1'' ''staff''
        [Some (Inl (GraphUser ''u-1'' ''Ann'')), Some (Inr (GraphGroup ''g-2'' ''admins'' []))]"
  let ?sg = "SCIMGroup ''staff''
        [GroupMember ''g-2'' ''https://h/Groups/g-2'' ''admins'',
         GroupMember ''u-1'' ''https://h/Users/u-1'' ''Ann''] Map.empty"
  have 1: "graph (ex_group\<lparr>graph := Some ?gg\<rparr>) = Some ?gg" by simp
  have 2: "g_display_name ?gg = sg_display_name ?sg" by simp
  have 3: "data (extensions (ex_group\<lparr>graph := Some ?gg\<rparr>)) = sg_data ?sg"
    by (simp add: ex_group_def)
  have 4: "inj_on member_key (set (g_members ?gg))" by (simp add: member_key_def)
  have 5: "\<forall>m\<in>set (sg_members ?sg). \<exists>x\<in>set (g_members ?gg). same_member m x"
    by (simp add: same_member_def)
  have 6: "\<forall>x\<in>set (g_members ?gg). \<exists>m\<in>set (sg_members ?sg). same_member m x"
    by (simp add: same_member_def)
  from identical_update_writes_nothing[OF 1 2 3 4 5 6] show ?thesis .
qed

end
